theory Spec2Isabelle
  imports Main
begin

section \<open>Text: Python strings as sequences of code points\<close>

text \<open>
  A Python \<open>str\<close> is a sequence of Unicode code points. The transcript format depends on
  code points beyond one byte (U+202F before AM/PM, U+200E and U+200F in front of a body),
  so a string is a list of code points, each a natural number. \<open>u\<close> turns an ASCII literal
  into such a string.
\<close>

type_synonym cp = nat
type_synonym pystr = "cp list"

definition u :: "string \<Rightarrow> pystr" where
  "u s = map of_char s"

text \<open>
  \<open>str.isspace\<close> for one code point, which is also the class \<open>\s\<close> of a \<open>str\<close> pattern:
  TAB..CR, FS..US, SPACE, NEL, NBSP, U+1680, U+2000..U+200A, U+2028, U+2029, U+202F,
  U+205F, U+3000.
\<close>

definition is_space :: "cp \<Rightarrow> bool" where
  "is_space c \<longleftrightarrow>
     (9 \<le> c \<and> c \<le> 13) \<or> (28 \<le> c \<and> c \<le> 32) \<or> c = 133 \<or> c = 160 \<or> c = 5760 \<or>
     (8192 \<le> c \<and> c \<le> 8202) \<or> c = 8232 \<or> c = 8233 \<or> c = 8239 \<or> c = 8287 \<or> c = 12288"

text \<open>
  The class \<open>\d\<close> of a \<open>str\<close> pattern holds every decimal digit of Unicode, not only the
  ASCII ones. In Unicode 14.0, the version of Python 3.11, these are 660 code points in 66
  runs of ten, each run the digits zero to nine of one script; \<open>decimal_zeros\<close> lists the
  code point of the zero of every run. \<open>digit_value\<close> is the number that \<open>int\<close> reads
  from such a digit.
\<close>

definition decimal_zeros :: "cp list" where
  "decimal_zeros =
     [48, 1632, 1776, 1984, 2406, 2534, 2662, 2790, 2918, 3046, 3174, 3302, 3430, 3558,
      3664, 3792, 3872, 4160, 4240, 6112, 6160, 6470, 6608, 6784, 6800, 6992, 7088, 7232,
      7248, 42528, 43216, 43264, 43472, 43504, 43600, 44016, 65296, 66720, 68912, 69734,
      69872, 69942, 70096, 70384, 70736, 70864, 71248, 71360, 71472, 71904, 72016, 72784,
      73040, 73120, 92768, 92864, 93008, 120782, 120792, 120802, 120812, 120822, 123200,
      123632, 125264, 130032]"

definition is_digit :: "cp \<Rightarrow> bool" where
  "is_digit c \<longleftrightarrow> list_ex (\<lambda>z. z \<le> c \<and> c < z + 10) decimal_zeros"

definition digit_value :: "cp \<Rightarrow> nat" where
  "digit_value c =
     (case find (\<lambda>z. z \<le> c \<and> c < z + 10) decimal_zeros of None \<Rightarrow> 0 | Some z \<Rightarrow> c - z)"

text \<open>\<open>str.strip()\<close>: whitespace removed at both ends.\<close>

definition strip :: "pystr \<Rightarrow> pystr" where
  "strip s = rev (dropWhile is_space (rev (dropWhile is_space s)))"

text \<open>\<open>str.rstrip()\<close>: whitespace removed at the right end only.\<close>

definition rstrip :: "pystr \<Rightarrow> pystr" where
  "rstrip s = rev (dropWhile is_space (rev s))"

text \<open>
  \<open>str.splitlines()\<close>: a line ends at LF, CR, CR LF, VT, FF, FS, GS, RS, NEL, U+2028 or
  U+2029; the terminator is dropped, and a terminator at the very end opens no further
  line. The second argument is the current line, reversed.
\<close>

definition is_linebreak :: "cp \<Rightarrow> bool" where
  "is_linebreak c \<longleftrightarrow>
     c = 10 \<or> c = 11 \<or> c = 12 \<or> c = 13 \<or> c = 28 \<or> c = 29 \<or> c = 30 \<or> c = 133 \<or>
     c = 8232 \<or> c = 8233"

fun splitlines_from :: "pystr \<Rightarrow> pystr \<Rightarrow> pystr list" where
  "splitlines_from [] cur = (if cur = [] then [] else [rev cur])"
| "splitlines_from (c # cs) cur =
     (if c = 13 then
        (case cs of
           [] \<Rightarrow> [rev cur]
         | d # ds \<Rightarrow> if d = 10 then rev cur # splitlines_from ds []
                    else rev cur # splitlines_from cs [])
      else if is_linebreak c then rev cur # splitlines_from cs []
      else splitlines_from cs (c # cur))"

definition splitlines :: "pystr \<Rightarrow> pystr list" where
  "splitlines s = splitlines_from s []"

section \<open>Regular expressions with backtracking\<close>

text \<open>
  The patterns of the program use single characters and character classes, greedy
  repetition of a class, concatenation, ordered alternatives and capture groups. \<open>ms\<close>
  lists every way a pattern matches a prefix of the input, in the order in which the
  backtracking matcher of \<open>re\<close> tries them: a greedy repetition tries the longest run
  first, an alternation its left branch first. The match that \<open>re\<close> reports is the head
  of that list. A state is the unread input and the groups captured so far.
\<close>

type_synonym caps = "nat \<rightharpoonup> pystr"

datatype rx =
    Cls "cp \<Rightarrow> bool"
  | Rep "cp \<Rightarrow> bool" nat "nat option"
  | Cat rx rx
  | Alt rx rx
  | Grp nat rx
  | Eps

definition rep_rests :: "(cp \<Rightarrow> bool) \<Rightarrow> nat \<Rightarrow> nat option \<Rightarrow> pystr \<Rightarrow> pystr list" where
  "rep_rests p lo hi s =
     (let n = length (takeWhile p s);
          m = (case hi of None \<Rightarrow> n | Some h \<Rightarrow> min n h)
      in map (\<lambda>k. drop k s) (rev [lo ..< Suc m]))"

fun ms :: "rx \<Rightarrow> pystr \<times> caps \<Rightarrow> (pystr \<times> caps) list" where
  "ms (Cls p) (s, c) = (case s of [] \<Rightarrow> [] | x # xs \<Rightarrow> if p x then [(xs, c)] else [])"
| "ms (Rep p lo hi) (s, c) = map (\<lambda>r. (r, c)) (rep_rests p lo hi s)"
| "ms (Cat a b) st = concat (map (ms b) (ms a st))"
| "ms (Alt a b) st = ms a st @ ms b st"
| "ms (Grp n r) (s, c) =
     map (\<lambda>(s', c'). (s', c'(n \<mapsto> take (length s - length s') s))) (ms r (s, c))"
| "ms Eps st = [st]"

text \<open>The numbers of the groups of a pattern; a match changes no other group.\<close>

fun groups_of :: "rx \<Rightarrow> nat set" where
  "groups_of (Cls p) = {}"
| "groups_of (Rep p lo hi) = {}"
| "groups_of (Cat a b) = groups_of a \<union> groups_of b"
| "groups_of (Alt a b) = groups_of a \<union> groups_of b"
| "groups_of (Grp n r) = insert n (groups_of r)"
| "groups_of Eps = {}"

text \<open>\<open>pattern.match(s)\<close>: the first match at index 0, as its groups, or \<open>None\<close>.\<close>

definition first_match :: "rx \<Rightarrow> pystr \<times> caps \<Rightarrow> (pystr \<times> caps) option" where
  "first_match r st = (case ms r st of [] \<Rightarrow> None | x # _ \<Rightarrow> Some x)"

definition re_match :: "rx \<Rightarrow> pystr \<Rightarrow> caps option" where
  "re_match r s = map_option snd (first_match r (s, Map.empty))"

text \<open>\<open>m.group(k)\<close> of a group that took part in the match.\<close>

definition group :: "caps \<Rightarrow> nat \<Rightarrow> pystr" where
  "group g k = (case g k of None \<Rightarrow> [] | Some t \<Rightarrow> t)"

text \<open>
  A literal character under \<open>re.IGNORECASE\<close>. The matcher lowers the text character and
  compares it with the lowered pattern character and its listed equivalents. Every
  literal of the program's patterns is ASCII; \<open>sre_lower\<close> is the simple lower-case
  mapping on the code points that it sends to ASCII (A..Z, U+0130, U+212A) and the
  identity elsewhere, and the equivalents are U+0131 for \<open>i\<close> and U+017F for \<open>s\<close>.
\<close>

definition sre_lower :: "cp \<Rightarrow> cp" where
  "sre_lower c =
     (if 65 \<le> c \<and> c \<le> 90 then c + 32 else if c = 304 then 105 else if c = 8490 then 107 else c)"

definition ci :: "cp \<Rightarrow> cp \<Rightarrow> bool" where
  "ci p c \<longleftrightarrow>
     (let l = sre_lower p; x = sre_lower c
      in x = l \<or> (l = 105 \<and> x = 305) \<or> (l = 115 \<and> x = 383))"

definition lit :: "cp \<Rightarrow> rx" where
  "lit p = Cls (\<lambda>c. c = p)"

text \<open>A literal word under \<open>re.IGNORECASE\<close>.\<close>

fun ci_word :: "pystr \<Rightarrow> rx" where
  "ci_word [] = Eps"
| "ci_word (p # ps) = Cat (Cls (ci p)) (ci_word ps)"

section \<open>The header pattern\<close>

text \<open>
  \<^verbatim>\<open>^\[(\d{2}/\d{2}/\d{2}),\s*(\d{1,2}:\d{2}:\d{2})\s*(\u202f|)(AM|PM|am|pm|)\s*\]\s*([^:]+):\s*(.*)\<close>
  compiled with \<open>re.MULTILINE | re.IGNORECASE\<close> and used through \<open>match\<close>, which starts
  at index 0, where \<open>^\<close> holds. The pattern is written in three parts: the bracket up to
  the time, the rest of the bracket, and sender and body. A line holds no LF, so \<open>.\<close> is
  every character but LF.
\<close>

definition digits2 :: rx where
  "digits2 = Rep is_digit 2 (Some 2)"

definition WA_date_time :: rx where
  "WA_date_time =
     Cat (lit 91)
    (Cat (Grp 1 (Cat digits2 (Cat (lit 47) (Cat digits2 (Cat (lit 47) digits2)))))
    (Cat (lit 44)
    (Cat (Rep is_space 0 None)
         (Grp 2 (Cat (Rep is_digit 1 (Some 2))
                (Cat (lit 58) (Cat digits2 (Cat (lit 58) digits2))))))))"

definition WA_meridiem :: rx where
  "WA_meridiem =
     Cat (Rep is_space 0 None)
    (Cat (Grp 3 (Alt (lit 8239) Eps))
    (Cat (Grp 4 (Alt (ci_word (u ''AM'')) (Alt (ci_word (u ''PM''))
                (Alt (ci_word (u ''am'')) (Alt (ci_word (u ''pm'')) Eps)))))
    (Cat (Rep is_space 0 None)
         (lit 93))))"

definition WA_sender_body :: rx where
  "WA_sender_body =
     Cat (Rep is_space 0 None)
    (Cat (Grp 5 (Rep (\<lambda>c. c \<noteq> 58) 1 None))
    (Cat (lit 58)
    (Cat (Rep is_space 0 None)
         (Grp 6 (Rep (\<lambda>c. c \<noteq> 10) 0 None)))))"

definition WA_bracket :: rx where
  "WA_bracket = Cat WA_date_time WA_meridiem"

definition WA_MESSAGE_START_PATTERN :: rx where
  "WA_MESSAGE_START_PATTERN = Cat WA_date_time (Cat WA_meridiem WA_sender_body)"

section \<open>parse_chat\<close>

text \<open>One entry of \<open>data\<close>: the dictionary built for a header line.\<close>

record raw_message =
  DateTimeStr :: pystr
  Sender :: pystr
  Message :: pystr

text \<open>The dictionary that a matching line opens.\<close>

definition open_message :: "caps \<Rightarrow> raw_message" where
  "open_message g =
     (let date_part = group g 1;
          time_ampm_part = (if group g 4 \<noteq> [] then group g 3 @ strip (group g 4) else []);
          time_part = group g 2 @ time_ampm_part
      in \<lparr>DateTimeStr = date_part @ 32 # time_part,
          Sender = strip (group g 5),
          Message = strip (group g 6)\<rparr>)"

text \<open>
  The loop over the lines. The state is \<open>data\<close> and \<open>current_message\<close>; the empty
  dictionary, which is false as a condition, is \<open>None\<close>.
\<close>

fun parse_lines :: "pystr list \<Rightarrow> raw_message list \<times> raw_message option
    \<Rightarrow> raw_message list \<times> raw_message option" where
  "parse_lines [] st = st"
| "parse_lines (line # lines) (data, cur) =
     (case re_match WA_MESSAGE_START_PATTERN line of
        Some g \<Rightarrow>
          parse_lines lines
            ((case cur of Some m \<Rightarrow> data @ [m] | None \<Rightarrow> data), Some (open_message g))
      | None \<Rightarrow>
          parse_lines lines
            (data,
             (case cur of
                Some m \<Rightarrow> Some (m\<lparr>Message := Message m @ 10 # strip line\<rparr>)
              | None \<Rightarrow> None)))"

text \<open>After the loop the message still open is appended.\<close>

definition flush :: "raw_message list \<times> raw_message option \<Rightarrow> raw_message list" where
  "flush st = (case st of (data, Some m) \<Rightarrow> data @ [m] | (data, None) \<Rightarrow> data)"

definition is_header :: "pystr \<Rightarrow> bool" where
  "is_header line \<longleftrightarrow> re_match WA_MESSAGE_START_PATTERN line \<noteq> None"

definition assemble :: "pystr list \<Rightarrow> raw_message list" where
  "assemble lines = flush (parse_lines lines ([], None))"

definition parse_chat :: "pystr \<Rightarrow> raw_message list" where
  "parse_chat file_content = assemble (splitlines file_content)"

section \<open>Timestamps: to_datetime with a format\<close>

text \<open>
  \<open>pd.to_datetime(column, format=..., errors='coerce')\<close> parses every string of the column
  against the format, as \<open>strptime\<close> does: the format is turned into a regular expression
  with one named group per directive, the expression is compiled with \<open>re.IGNORECASE\<close> and
  matched at index 0, the match has to reach the end of the string, and the groups are
  converted to numbers. The directives of the two formats of the program:
  \<^verbatim>\<open>%d\<close> \<open>3[0-1]|[1-2]\d|0[1-9]|[1-9]| [1-9]\<close>, \<^verbatim>\<open>%m\<close> \<open>1[0-2]|0[1-9]|[1-9]\<close>,
  \<^verbatim>\<open>%y\<close> \<open>\d\d\<close>, \<^verbatim>\<open>%H\<close> \<open>2[0-3]|[0-1]\d|\d\<close>, \<^verbatim>\<open>%I\<close> \<open>1[0-2]|0[1-9]|[1-9]\<close>,
  \<^verbatim>\<open>%M\<close> \<open>[0-5]\d|\d\<close>, \<^verbatim>\<open>%S\<close> \<open>6[0-1]|[0-5]\d|\d\<close>, \<^verbatim>\<open>%p\<close> \<open>am|pm\<close>; white space in
  the format is \<open>\s+\<close>. The groups are numbered d = 1, m = 2, y = 3, H = 4, I = 5, M = 6,
  S = 7, p = 8.
\<close>

datatype directive = Dd | Dm | Dy | DH | DI | DM | DS | Dp | Ch cp | Ws

definition rng :: "cp \<Rightarrow> cp \<Rightarrow> rx" where
  "rng a b = Cls (\<lambda>c. a \<le> c \<and> c \<le> b)"

definition digit :: rx where
  "digit = Cls is_digit"

fun directive_rx :: "directive \<Rightarrow> rx" where
  "directive_rx Dd =
     Grp 1 (Alt (Cat (lit 51) (rng 48 49)) (Alt (Cat (rng 49 50) digit)
           (Alt (Cat (lit 48) (rng 49 57)) (Alt (rng 49 57) (Cat (lit 32) (rng 49 57))))))"
| "directive_rx Dm =
     Grp 2 (Alt (Cat (lit 49) (rng 48 50)) (Alt (Cat (lit 48) (rng 49 57)) (rng 49 57)))"
| "directive_rx Dy = Grp 3 (Cat digit digit)"
| "directive_rx DH =
     Grp 4 (Alt (Cat (lit 50) (rng 48 51)) (Alt (Cat (rng 48 49) digit) digit))"
| "directive_rx DI =
     Grp 5 (Alt (Cat (lit 49) (rng 48 50)) (Alt (Cat (lit 48) (rng 49 57)) (rng 49 57)))"
| "directive_rx DM = Grp 6 (Alt (Cat (rng 48 53) digit) digit)"
| "directive_rx DS =
     Grp 7 (Alt (Cat (lit 54) (rng 48 49)) (Alt (Cat (rng 48 53) digit) digit))"
| "directive_rx Dp = Grp 8 (Alt (ci_word (u ''am'')) (ci_word (u ''pm'')))"
| "directive_rx (Ch c) = lit c"
| "directive_rx Ws = Rep is_space 1 None"

fun format_regex :: "directive list \<Rightarrow> rx" where
  "format_regex [] = Eps"
| "format_regex (d # ds) = Cat (directive_rx d) (format_regex ds)"

text \<open>\<^verbatim>\<open>'%d/%m/%y %I:%M:%S%p'\<close> and \<^verbatim>\<open>'%d/%m/%y %H:%M:%S'\<close>.\<close>

definition fmt_12h :: "directive list" where
  "fmt_12h = [Dd, Ch 47, Dm, Ch 47, Dy, Ws, DI, Ch 58, DM, Ch 58, DS, Dp]"

definition fmt_24h :: "directive list" where
  "fmt_24h = [Dd, Ch 47, Dm, Ch 47, Dy, Ws, DH, Ch 58, DM, Ch 58, DS]"

text \<open>\<open>int(token)\<close> for a token of digits, which \<open>%d\<close> may pad with a space.\<close>

definition py_int :: "pystr \<Rightarrow> nat" where
  "py_int s = foldl (\<lambda>a c. 10 * a + digit_value c) 0 (strip s)"

record timestamp =
  ts_year :: nat
  ts_month :: nat
  ts_day :: nat
  ts_hour :: nat
  ts_minute :: nat
  ts_second :: nat

definition is_leap :: "nat \<Rightarrow> bool" where
  "is_leap y \<longleftrightarrow> y mod 4 = 0 \<and> (y mod 100 \<noteq> 0 \<or> y mod 400 = 0)"

definition days_in_month :: "nat \<Rightarrow> nat \<Rightarrow> nat" where
  "days_in_month y m =
     (if m = 2 then (if is_leap y then 29 else 28)
      else if m = 4 \<or> m = 6 \<or> m = 9 \<or> m = 11 then 30 else 31)"

text \<open>
  The two-digit year: 00..68 is 2000..2068 and 69..99 is 1969..1999. The hour of \<open>%I\<close>
  with the meridiem: 12 AM is 0, and PM adds 12 except to 12.
\<close>

definition century :: "nat \<Rightarrow> nat" where
  "century yy = (if yy \<le> 68 then yy + 2000 else yy + 1900)"

definition hour_12 :: "nat \<Rightarrow> pystr \<Rightarrow> nat" where
  "hour_12 h ampm =
     (if ampm = [] \<or> ampm = u ''am'' then (if h = 12 then 0 else h)
      else if ampm = u ''pm'' then (if h \<noteq> 12 then h + 12 else h)
      else h)"

text \<open>
  The fields of a match. A directive that the format lacks leaves its default: year
  1900, month 1, day 1, and 0 for hour, minute and second. A day that the month does not
  have is an error, which \<open>errors='coerce'\<close> turns into \<open>NaT\<close>, here \<open>None\<close>. The pattern
  of \<open>%S\<close> lets the seconds 60 and 61 through; the model rejects them with the range
  check of the datetime constructor.
\<close>

definition fields_of :: "caps \<Rightarrow> timestamp option" where
  "fields_of g =
     (let y = (case g 3 of None \<Rightarrow> 1900 | Some t \<Rightarrow> century (py_int t));
          mo = (case g 2 of None \<Rightarrow> 1 | Some t \<Rightarrow> py_int t);
          d = (case g 1 of None \<Rightarrow> 1 | Some t \<Rightarrow> py_int t);
          h = (case g 5 of
                 Some t \<Rightarrow> hour_12 (py_int t) (map sre_lower (group g 8))
               | None \<Rightarrow> (case g 4 of None \<Rightarrow> 0 | Some t \<Rightarrow> py_int t));
          mi = (case g 6 of None \<Rightarrow> 0 | Some t \<Rightarrow> py_int t);
          s = (case g 7 of None \<Rightarrow> 0 | Some t \<Rightarrow> py_int t)
      in if d \<le> days_in_month y mo \<and> s \<le> 59
         then Some \<lparr>ts_year = y, ts_month = mo, ts_day = d, ts_hour = h, ts_minute = mi,
                    ts_second = s\<rparr>
         else None)"

definition strptime :: "directive list \<Rightarrow> pystr \<Rightarrow> timestamp option" where
  "strptime fmt s =
     (case first_match (format_regex fmt) (s, Map.empty) of
        None \<Rightarrow> None
      | Some (rest, g) \<Rightarrow> if rest = [] then fields_of g else None)"

text \<open>
  The \<open>errors\<close> argument: with \<open>'raise'\<close> the first string that does not parse raises
  \<open>ValueError\<close>; with \<open>'coerce'\<close> such a string becomes \<open>NaT\<close> and nothing is raised.
\<close>

datatype error = ValueError | KeyError string

datatype errors_arg = raise | coerce

definition to_datetime :: "pystr list \<Rightarrow> directive list \<Rightarrow> errors_arg
    \<Rightarrow> error + timestamp option list" where
  "to_datetime arg fmt errors =
     (let r = map (strptime fmt) arg
      in if errors = raise \<and> list_ex (\<lambda>t. t = None) r then Inl ValueError else Inr r)"

text \<open>
  \<open>dt.month_name()\<close>, and \<open>dt.day_name()\<close> from the day number of the proleptic Gregorian
  calendar, Monday first.
\<close>

definition month_order :: "string list" where
  "month_order = [''January'', ''February'', ''March'', ''April'', ''May'', ''June'',
     ''July'', ''August'', ''September'', ''October'', ''November'', ''December'']"

definition day_order :: "string list" where
  "day_order = [''Monday'', ''Tuesday'', ''Wednesday'', ''Thursday'', ''Friday'',
     ''Saturday'', ''Sunday'']"

definition month_name :: "timestamp \<Rightarrow> string" where
  "month_name t =
     (if 1 \<le> ts_month t \<and> ts_month t \<le> 12 then month_order ! (ts_month t - 1) else [])"

definition ordinal :: "timestamp \<Rightarrow> nat" where
  "ordinal t =
     (let y = ts_year t - 1
      in y * 365 + y div 4 + y div 400 - y div 100
         + sum_list (map (days_in_month (ts_year t)) [1 ..< ts_month t]) + ts_day t)"

definition day_name :: "timestamp \<Rightarrow> string" where
  "day_name t = day_order ! ((ordinal t + 6) mod 7)"

section \<open>process_dataframe\<close>

text \<open>
  \<open>.str.replace(r'^\u200e|\u200f', '', regex=True).str.strip()\<close>: the pattern is the
  alternation of \<open>^\u200e\<close> and \<open>\u200f\<close>, so the substitution removes U+200E at index 0
  and U+200F wherever it stands.
\<close>

definition clean_message :: "pystr \<Rightarrow> pystr" where
  "clean_message s =
     strip (case s of
              [] \<Rightarrow> []
            | c # cs \<Rightarrow> if c = 8206 then filter (\<lambda>x. x \<noteq> 8207) cs
                        else filter (\<lambda>x. x \<noteq> 8207) s)"

text \<open>
  \<open>str.contains('|'.join(system_messages), case=False, na=False)\<close>: the phrases joined by
  \<open>|\<close> are one regular expression, searched anywhere in the body under
  \<open>re.IGNORECASE\<close>. The only character of the phrases that the expression syntax reads
  specially is the full stop, which stands for every character but LF.
\<close>

fun phrase_rx :: "string \<Rightarrow> rx" where
  "phrase_rx [] = Eps"
| "phrase_rx (p # ps) =
     Cat (if p = CHR ''.'' then Cls (\<lambda>c. c \<noteq> 10) else Cls (ci (of_char p))) (phrase_rx ps)"

fun alternation :: "string list \<Rightarrow> rx" where
  "alternation [] = Eps"
| "alternation [p] = phrase_rx p"
| "alternation (p # ps) = Alt (phrase_rx p) (alternation ps)"

fun re_search :: "rx \<Rightarrow> pystr \<Rightarrow> bool" where
  "re_search r [] = (ms r ([], Map.empty) \<noteq> [])"
| "re_search r (x # xs) = (if ms r (x # xs, Map.empty) \<noteq> [] then True else re_search r xs)"

definition str_contains :: "string list \<Rightarrow> pystr \<Rightarrow> bool" where
  "str_contains system_messages body = re_search (alternation system_messages) body"

text \<open>The list of \<open>data_processor.py\<close> and the list of \<open>app.py\<close>.\<close>

definition system_messages :: "string list" where
  "system_messages =
     [''Messages and calls are end-to-end encrypted.'', ''image omitted'',
      ''document omitted'', ''sticker omitted'', ''This message was deleted.'',
      ''GIF omitted'', ''audio omitted'', ''video omitted'',
      ''You joined using this group's invite link'']"

definition app_system_messages :: "string list" where
  "app_system_messages =
     [''Messages and calls are end-to-end encrypted.'', ''image omitted'',
      ''document omitted'', ''sticker omitted'', ''This message was deleted.'',
      ''GIF omitted'', ''audio omitted'', ''video omitted'',
      ''You joined using this group's invite link'',
      ''changed the group name'', ''changed this group's icon'',
      ''changed the group settings'',
      ''created this group'', ''left'', ''added'', ''removed'', ''joined'']"

text \<open>
  A row of the processed frame with every column that \<open>process_dataframe\<close> computes, and
  the frame: the labels of the columns it carries and its rows. \<open>df[name]\<close> raises
  \<open>KeyError\<close> for a label that the frame does not carry.
\<close>

record row =
  day :: nat
  month :: string
  year :: nat
  hour :: nat
  minute :: nat
  day_of_week :: string
  sender :: pystr
  message :: pystr
  DateTime :: timestamp

record frame =
  columns :: "string list"
  rows :: "row list"

definition getitem :: "frame \<Rightarrow> string \<Rightarrow> (row \<Rightarrow> 'a) \<Rightarrow> error + 'a list" where
  "getitem df name field =
     (if name \<in> set (columns df) then Inr (map field (rows df)) else Inl (KeyError name))"

text \<open>Step 1: the body cleaned, and the rows with an empty body dropped.\<close>

definition clean_bodies :: "raw_message list \<Rightarrow> raw_message list" where
  "clean_bodies data =
     filter (\<lambda>m. Message m \<noteq> []) (map (\<lambda>m. m\<lparr>Message := clean_message (Message m)\<rparr>) data)"

text \<open>
  Step 2: the 12-hour format with \<open>errors='coerce'\<close>, and inside \<open>except ValueError\<close> the
  24-hour format.
\<close>

definition parse_column :: "pystr list \<Rightarrow> error + timestamp option list" where
  "parse_column col =
     (case to_datetime col fmt_12h coerce of
        Inl ValueError \<Rightarrow> to_datetime col fmt_24h coerce
      | Inl e \<Rightarrow> Inl e
      | Inr r \<Rightarrow> Inr r)"

text \<open>\<open>dropna(subset=['DateTime'])\<close>, the derived columns and the renamed ones.\<close>

definition make_row :: "raw_message \<Rightarrow> timestamp \<Rightarrow> row" where
  "make_row m t =
     \<lparr>day = ts_day t, month = month_name t, year = ts_year t, hour = ts_hour t,
      minute = ts_minute t, day_of_week = day_name t, sender = Sender m,
      message = Message m, DateTime = t\<rparr>"

fun dated_rows :: "raw_message list \<Rightarrow> timestamp option list \<Rightarrow> row list" where
  "dated_rows (m # msgs) (Some t # ts) = make_row m t # dated_rows msgs ts"
| "dated_rows (m # msgs) (None # ts) = dated_rows msgs ts"
| "dated_rows _ _ = []"

text \<open>
  The body that the two copies of \<open>process_dataframe\<close> share; they differ in the list of
  system messages and in the columns they return. A frame without rows is returned as it
  is: \<open>parse_chat\<close> built it from the empty list, so it has no columns.
\<close>

definition process_with :: "string list \<Rightarrow> string list \<Rightarrow> raw_message list \<Rightarrow> error + frame" where
  "process_with phrases returned data =
     (if data = [] then Inr \<lparr>columns = [], rows = []\<rparr>
      else
        let df = clean_bodies data
        in case parse_column (map DateTimeStr df) of
             Inl e \<Rightarrow> Inl e
           | Inr ts \<Rightarrow>
               Inr \<lparr>columns = returned,
                    rows = filter (\<lambda>r. \<not> str_contains phrases (message r)) (dated_rows df ts)\<rparr>)"

text \<open>\<open>data_processor.py\<close>.\<close>

definition process_dataframe :: "raw_message list \<Rightarrow> error + frame" where
  "process_dataframe =
     process_with system_messages
       [''day'', ''month'', ''year'', ''hour'', ''minute'', ''sender'', ''message'', ''DateTime'']"

text \<open>\<open>app.py\<close>.\<close>

definition app_process_dataframe :: "raw_message list \<Rightarrow> error + frame" where
  "app_process_dataframe =
     process_with app_system_messages
       [''day'', ''month'', ''year'', ''hour'', ''minute'', ''day_of_week'', ''sender'',
        ''message'', ''DateTime'']"

text \<open>The pipeline from the text of the file: \<open>parse_chat\<close>, then \<open>process_dataframe\<close>.\<close>

definition parseTranscript :: "pystr \<Rightarrow> error + frame" where
  "parseTranscript text = process_dataframe (parse_chat text)"

definition app_parseTranscript :: "pystr \<Rightarrow> error + frame" where
  "app_parseTranscript text = app_process_dataframe (parse_chat text)"

section \<open>WhatsAppAnalyzer\<close>

text \<open>
  The constructor keeps the frame for \<open>'Overall'\<close> and the rows of one sender otherwise;
  it reads the columns \<open>sender\<close> (for a sender) and \<open>message\<close>.
\<close>

record analyzer =
  user :: pystr
  df :: frame

definition Overall :: pystr where
  "Overall = u ''Overall''"

definition WhatsAppAnalyzer :: "frame \<Rightarrow> pystr \<Rightarrow> error + analyzer" where
  "WhatsAppAnalyzer d usr =
     (case (if usr = Overall then Inr d
            else (case getitem d ''sender'' sender of
                    Inl e \<Rightarrow> Inl e
                  | Inr _ \<Rightarrow> Inr (d\<lparr>rows := filter (\<lambda>r. sender r = usr) (rows d)\<rparr>))) of
        Inl e \<Rightarrow> Inl e
      | Inr d' \<Rightarrow>
          (case getitem d' ''message'' message of
             Inl e \<Rightarrow> Inl e
           | Inr _ \<Rightarrow> Inr \<lparr>user = usr, df = d'\<rparr>))"

text \<open>
  \<open>value_counts()\<close> has one entry per value that occurs, with its number of occurrences;
  \<open>sort_index()\<close> orders the entries by value. On a categorical column with the categories
  set, \<open>value_counts()\<close> has one entry per category, zero for a category that does not
  occur, and \<open>sort_index()\<close> orders them as the categories are ordered.
\<close>

definition value_counts :: "nat list \<Rightarrow> (nat \<times> nat) list" where
  "value_counts xs = map (\<lambda>v. (v, count_list xs v)) (remdups xs)"

definition sort_index :: "(nat \<times> nat) list \<Rightarrow> (nat \<times> nat) list" where
  "sort_index = sort_key fst"

definition category_counts :: "string list \<Rightarrow> string list \<Rightarrow> (string \<times> nat) list" where
  "category_counts categories xs = map (\<lambda>v. (v, count_list xs v)) categories"

record timeline =
  Hourly :: "(nat \<times> nat) list"
  DayOfWeek :: "(string \<times> nat) list"
  Monthly :: "(string \<times> nat) list"

definition get_timeline_data :: "analyzer \<Rightarrow> error + timeline" where
  "get_timeline_data a =
     (case getitem (df a) ''hour'' hour of
        Inl e \<Rightarrow> Inl e
      | Inr hours \<Rightarrow>
     (case getitem (df a) ''day_of_week'' day_of_week of
        Inl e \<Rightarrow> Inl e
      | Inr days \<Rightarrow>
     (case getitem (df a) ''month'' month of
        Inl e \<Rightarrow> Inl e
      | Inr months \<Rightarrow>
          Inr \<lparr>Hourly = sort_index (value_counts hours),
               DayOfWeek = category_counts day_order days,
               Monthly = category_counts month_order months\<rparr>)))"

text \<open>The timeline of a scope, from the frame: the constructor, then \<open>get_timeline_data\<close>.\<close>

definition timelineBuckets :: "frame \<Rightarrow> pystr \<Rightarrow> error + timeline" where
  "timelineBuckets d usr =
     (case WhatsAppAnalyzer d usr of Inl e \<Rightarrow> Inl e | Inr a \<Rightarrow> get_timeline_data a)"

section \<open>Facts about the matcher\<close>

lemma first_Cat:
  "first_match a st = Some x \<Longrightarrow> first_match b x = Some y \<Longrightarrow> first_match (Cat a b) st = Some y"
  by (auto simp: first_match_def split: list.splits)

lemma first_Cat_skip:
  "ms a st = x1 # x2 # xs \<Longrightarrow> ms b x1 = [] \<Longrightarrow> first_match b x2 = Some y \<Longrightarrow>
   first_match (Cat a b) st = Some y"
  by (auto simp: first_match_def split: list.splits)

lemma first_Alt1: "first_match a st = Some x \<Longrightarrow> first_match (Alt a b) st = Some x"
  by (auto simp: first_match_def split: list.splits)

lemma first_Alt2: "ms a st = [] \<Longrightarrow> first_match (Alt a b) st = first_match b st"
  by (auto simp: first_match_def split: list.splits)

lemma first_Grp:
  "first_match r (s, c) = Some (s', c') \<Longrightarrow>
   first_match (Grp n r) (s, c) = Some (s', c'(n \<mapsto> take (length s - length s') s))"
  by (auto simp: first_match_def split: list.splits)

lemma first_Cls: "p x \<Longrightarrow> first_match (Cls p) (x # xs, c) = Some (xs, c)"
  by (simp add: first_match_def)

lemma first_Eps: "first_match Eps st = Some st"
  by (simp add: first_match_def)

lemma first_Rep:
  assumes "lo \<le> (case hi of None \<Rightarrow> length (takeWhile p s) | Some h \<Rightarrow> min (length (takeWhile p s)) h)"
  shows "first_match (Rep p lo hi) (s, c) =
     Some (drop (case hi of None \<Rightarrow> length (takeWhile p s) | Some h \<Rightarrow> min (length (takeWhile p s)) h) s, c)"
proof -
  define m where "m = (case hi of None \<Rightarrow> length (takeWhile p s) | Some h \<Rightarrow> min (length (takeWhile p s)) h)"
  have "rev [lo ..< Suc m] = m # rev [lo ..< m]"
    using assms by (simp add: m_def)
  then show ?thesis
    by (simp add: first_match_def rep_rests_def Let_def m_def)
qed

lemma first_Rep_star: "first_match (Rep p 0 None) (s, c) = Some (dropWhile p s, c)"
  using first_Rep [where lo = 0 and hi = None and p = p and s = s and c = c]
  by (simp add: dropWhile_eq_drop)

lemma ms_Rep_star_snoc:
  assumes "\<forall>x \<in> set w. p x" and "p x" and "rest = [] \<or> \<not> p (hd rest)"
  shows "\<exists>xs. ms (Rep p 0 None) (w @ x # rest, c) = (rest, c) # (x # rest, c) # xs"
proof -
  have tw: "takeWhile p ((w @ [x]) @ rest) = w @ [x]"
    using assms by (cases rest) (simp_all add: takeWhile_append2)
  have "rev [0 ..< Suc (Suc (length w))] = Suc (length w) # length w # rev [0 ..< length w]"
    by simp
  then show ?thesis using tw
    by (simp add: rep_rests_def Let_def)
qed

lemma concat_map_concat:
  "concat (map f (concat xss)) = concat (map (\<lambda>xs. concat (map f xs)) xss)"
  by (induction xss) simp_all

lemma ms_Cat_assoc: "ms (Cat a (Cat b c)) st = ms (Cat (Cat a b) c) st"
proof -
  have "ms (Cat b c) = (\<lambda>x. concat (map (ms c) (ms b x)))"
    by (rule ext) simp
  then show ?thesis
    by (simp add: concat_map_concat comp_def)
qed

lemma take_consumed:
  "take (length s - length (dropWhile p s)) s = takeWhile p s"
proof -
  have "length (takeWhile p s) + length (dropWhile p s) = length s"
    by (metis length_append takeWhile_dropWhile_id)
  then have "length s - length (dropWhile p s) = length (takeWhile p s)"
    by simp
  then show ?thesis
    by (metis takeWhile_eq_take)
qed

lemma blank_sender_first:
  assumes ws: "ws \<noteq> []" "\<forall>x \<in> set ws. is_space x"
  shows "first_match WA_sender_body (ws @ 58 # tail, g) =
     Some (dropWhile (\<lambda>c. c \<noteq> 10) (dropWhile is_space tail),
           g(5 \<mapsto> [last ws],
             6 \<mapsto> takeWhile (\<lambda>c. c \<noteq> 10) (dropWhile is_space tail)))"
proof -
  obtain w x where wx: "ws = w @ [x]" using ws(1) by (cases ws rule: rev_cases) auto
  have sx: "is_space x" and sw: "\<forall>y \<in> set w. is_space y" using ws(2) wx by auto
  have ns: "\<not> is_space 58" by (simp add: is_space_def)
  obtain xs where star:
    "ms (Rep is_space 0 None) (w @ x # 58 # tail, g) = (58 # tail, g) # (x # 58 # tail, g) # xs"
    using ms_Rep_star_snoc [OF sw sx, of "58 # tail" g] ns by auto
  let ?k = "Cat (Grp 5 (Rep (\<lambda>c. c \<noteq> 58) 1 None))
             (Cat (lit 58) (Cat (Rep is_space 0 None) (Grp 6 (Rep (\<lambda>c. c \<noteq> 10) 0 None))))"
  have fail: "ms ?k (58 # tail, g) = []"
    by (simp add: rep_rests_def)
  have x58: "x \<noteq> 58" using sx by (auto simp: is_space_def)
  have g5: "first_match (Grp 5 (Rep (\<lambda>c. c \<noteq> 58) 1 None)) (x # 58 # tail, g)
      = Some (58 # tail, g(5 \<mapsto> [x]))"
    using first_Grp [OF first_Rep [where lo = 1 and hi = None and p = "\<lambda>c. c \<noteq> 58"
          and s = "x # 58 # tail" and c = g], of 5] x58
    by simp
  have colon: "first_match (lit 58) (58 # tail, g(5 \<mapsto> [x])) = Some (tail, g(5 \<mapsto> [x]))"
    by (simp add: lit_def first_Cls)
  have g6: "first_match (Grp 6 (Rep (\<lambda>c. c \<noteq> 10) 0 None)) (dropWhile is_space tail, g(5 \<mapsto> [x]))
      = Some (dropWhile (\<lambda>c. c \<noteq> 10) (dropWhile is_space tail),
              g(5 \<mapsto> [x], 6 \<mapsto> takeWhile (\<lambda>c. c \<noteq> 10) (dropWhile is_space tail)))"
    using first_Grp [OF first_Rep_star [where p = "\<lambda>c. c \<noteq> 10"
          and s = "dropWhile is_space tail" and c = "g(5 \<mapsto> [x])"], of 6]
    by (simp add: take_consumed)
  have "first_match ?k (x # 58 # tail, g) =
      Some (dropWhile (\<lambda>c. c \<noteq> 10) (dropWhile is_space tail),
            g(5 \<mapsto> [x], 6 \<mapsto> takeWhile (\<lambda>c. c \<noteq> 10) (dropWhile is_space tail)))"
    by (rule first_Cat [OF g5 first_Cat [OF colon first_Cat [OF first_Rep_star g6]]])
  from first_Cat_skip [OF star fail this] show ?thesis
    by (simp add: WA_sender_body_def wx)
qed

section \<open>Digits\<close>

lemma is_digit_ascii: "c < 1632 \<Longrightarrow> is_digit c \<longleftrightarrow> 48 \<le> c \<and> c \<le> 57"
  by (auto simp: is_digit_def decimal_zeros_def)

lemma digit_value_ascii: "48 \<le> c \<Longrightarrow> c \<le> 57 \<Longrightarrow> digit_value c = c - 48"
  by (simp add: digit_value_def decimal_zeros_def)

section \<open>Evaluation of the definitions on concrete input\<close>

lemmas rx_eval = WA_MESSAGE_START_PATTERN_def WA_bracket_def WA_date_time_def WA_meridiem_def
  WA_sender_body_def digits2_def lit_def rep_rests_def re_match_def first_match_def group_def
  open_message_def is_digit_ascii is_space_def strip_def rstrip_def ci_def sre_lower_def u_def
  is_header_def assemble_def flush_def

section \<open>The loop over the lines\<close>

lemma length_flush_parse_lines:
  "length (flush (parse_lines lines (data, cur))) =
     length data + (case cur of None \<Rightarrow> 0 | Some _ \<Rightarrow> 1) + length (filter is_header lines)"
proof (induction lines arbitrary: data cur)
  case Nil
  show ?case by (simp add: flush_def split: option.splits)
next
  case (Cons line lines)
  show ?case
  proof (cases "re_match WA_MESSAGE_START_PATTERN line")
    case None
    then show ?thesis using Cons.IH by (simp add: is_header_def split: option.splits)
  next
    case (Some g)
    then show ?thesis using Cons.IH by (simp add: is_header_def split: option.splits)
  qed
qed

lemma parse_lines_stays_open:
  "\<exists>d m'. parse_lines ls (data, Some m) = (d, Some m')"
  by (induction ls arbitrary: data m) (simp_all split: option.splits)

lemma parse_lines_opens:
  "list_ex is_header ls \<Longrightarrow> \<exists>d m. parse_lines ls (data, cur) = (d, Some m)"
proof (induction ls arbitrary: data cur)
  case Nil
  then show ?case by simp
next
  case (Cons l ls)
  show ?case
  proof (cases "re_match WA_MESSAGE_START_PATTERN l")
    case (Some g)
    then show ?thesis by (simp add: parse_lines_stays_open)
  next
    case None
    then have "list_ex is_header ls" using Cons.prems by (auto simp: is_header_def list_ex_iff)
    then show ?thesis using None Cons.IH by simp
  qed
qed

lemma parse_lines_no_header_closed:
  "\<forall>l \<in> set ls. \<not> is_header l \<Longrightarrow> parse_lines ls (data, None) = (data, None)"
  by (induction ls) (simp_all add: is_header_def)

lemma parse_lines_no_header_open:
  "\<forall>l \<in> set ls. \<not> is_header l \<Longrightarrow>
   parse_lines ls (data, Some m) =
     (data, Some (m\<lparr>Message := Message m @ concat (map (\<lambda>l. 10 # strip l) ls)\<rparr>))"
  by (induction ls arbitrary: m) (simp_all add: is_header_def)

lemma parse_lines_append:
  "parse_lines (xs @ ys) st = parse_lines ys (parse_lines xs st)"
  by (induction xs st rule: parse_lines.induct) (simp_all split: option.splits)

section \<open>One message per header line, the open one included\<close>

text \<open>
  C4. For every sequence of lines, \<open>parse_chat\<close> emits as many raw messages as there are
  lines that the header pattern matches. The message still open after the last line is
  emitted: when the loop ends with the closed messages \<open>data\<close> and the open message \<open>m\<close>,
  the result is \<open>data\<close> followed by \<open>m\<close>; and the loop ends with an open message
  whenever one of the lines is a header.
\<close>

theorem assemble_count:
  "length (assemble lines) = length (filter is_header lines) \<and>
   (parse_lines lines ([], None) = (data, Some m) \<longrightarrow> assemble lines = data @ [m]) \<and>
   (list_ex is_header lines \<longrightarrow> (\<exists>d m'. parse_lines lines ([], None) = (d, Some m')))"
proof -
  have "length (assemble lines) = length (filter is_header lines)"
    by (simp add: assemble_def length_flush_parse_lines)
  moreover have "parse_lines lines ([], None) = (data, Some m) \<longrightarrow> assemble lines = data @ [m]"
    by (simp add: assemble_def flush_def)
  moreover have "list_ex is_header lines \<longrightarrow>
      (\<exists>d m'. parse_lines lines ([], None) = (d, Some m'))"
    using parse_lines_opens by blast
  ultimately show ?thesis by blast
qed

text \<open>
  C4 on an export line, a header, a text line and a second header: the loop ends with
  the first message closed and the second one open, and both are emitted.
\<close>

theorem assemble_count_witness:
  "parse_lines [u ''chat export'', u ''[01/01/23, 9:05:00 PM] Alice: Hello'', u ''more'',
                u ''[02/01/23, 10:00:00 AM] Bob: Hi''] ([], None) =
     ([\<lparr>DateTimeStr = u ''01/01/23 9:05:00PM'', Sender = u ''Alice'',
        Message = u ''Hello'' @ 10 # u ''more''\<rparr>],
      Some \<lparr>DateTimeStr = u ''02/01/23 10:00:00AM'', Sender = u ''Bob'', Message = u ''Hi''\<rparr>) \<and>
   list_ex is_header [u ''chat export'', u ''[01/01/23, 9:05:00 PM] Alice: Hello'', u ''more'',
                u ''[02/01/23, 10:00:00 AM] Bob: Hi''] \<and>
   assemble [u ''chat export'', u ''[01/01/23, 9:05:00 PM] Alice: Hello'', u ''more'',
             u ''[02/01/23, 10:00:00 AM] Bob: Hi''] =
     [\<lparr>DateTimeStr = u ''01/01/23 9:05:00PM'', Sender = u ''Alice'',
       Message = u ''Hello'' @ 10 # u ''more''\<rparr>,
      \<lparr>DateTimeStr = u ''02/01/23 10:00:00AM'', Sender = u ''Bob'', Message = u ''Hi''\<rparr>] \<and>
   length (filter is_header [u ''chat export'', u ''[01/01/23, 9:05:00 PM] Alice: Hello'',
             u ''more'', u ''[02/01/23, 10:00:00 AM] Bob: Hi'']) = 2"
proof -
  let ?L = "[u ''chat export'', u ''[01/01/23, 9:05:00 PM] Alice: Hello'', u ''more'',
             u ''[02/01/23, 10:00:00 AM] Bob: Hi'']"
  let ?D = "[\<lparr>DateTimeStr = u ''01/01/23 9:05:00PM'', Sender = u ''Alice'',
              Message = u ''Hello'' @ 10 # u ''more''\<rparr>]"
  let ?M = "\<lparr>DateTimeStr = u ''02/01/23 10:00:00AM'', Sender = u ''Bob'', Message = u ''Hi''\<rparr>"
  have h: "parse_lines ?L ([], None) = (?D, Some ?M)"
    by (simp add: rx_eval)
  have e: "list_ex is_header ?L"
    by (simp add: rx_eval)
  note t = assemble_count [of ?L ?D ?M]
  from t h have a: "assemble ?L = ?D @ [?M]" by blast
  from t have "length (assemble ?L) = length (filter is_header ?L)" by blast
  with a have n: "length (filter is_header ?L) = 2" by simp
  from h e a n show ?thesis by simp
qed

section \<open>Continuation lines\<close>

text \<open>
  C7, as the code has it. Lines before the first header line are discarded. Whenever a
  message is open, whatever lines came before, every following line that is not itself
  a header adds a newline and the line with its whitespace removed at both ends
  (\<open>line.strip()\<close>) to the body of the open message; the lines after them are then
  read from that state, and at the end of the input the message is emitted with them.
\<close>

theorem continuation_lines:
  assumes "\<forall>l \<in> set pre. \<not> is_header l"
    and "parse_lines before ([], None) = (data, Some m)"
    and "\<forall>l \<in> set conts. \<not> is_header l"
  shows "assemble (pre @ rest) = assemble rest \<and>
     parse_lines (before @ conts @ rest) ([], None) =
       parse_lines rest
         (data, Some (m\<lparr>Message := Message m @ concat (map (\<lambda>l. 10 # strip l) conts)\<rparr>)) \<and>
     assemble (before @ conts) =
       data @ [m\<lparr>Message := Message m @ concat (map (\<lambda>l. 10 # strip l) conts)\<rparr>]"
  using assms
  by (simp add: assemble_def parse_lines_append parse_lines_no_header_closed
      parse_lines_no_header_open flush_def)

lemma nohdr1: "\<not> is_header (u ''   indented  '')"
  by (simp add: rx_eval)

lemma nohdr2: "\<not> is_header (u ''chat export'')"
  by (simp add: rx_eval)

lemma two_headers:
  "parse_lines [u ''[01/01/23, 9:05:00 PM] Alice: Hello'', u ''[02/01/23, 10:00:00 AM] Bob: Hi'']
     ([], None) =
     ([\<lparr>DateTimeStr = u ''01/01/23 9:05:00PM'', Sender = u ''Alice'', Message = u ''Hello''\<rparr>],
      Some \<lparr>DateTimeStr = u ''02/01/23 10:00:00AM'', Sender = u ''Bob'', Message = u ''Hi''\<rparr>)"
  by (simp add: rx_eval)

text \<open>
  C7: the hypotheses hold for an export line, two headers and an indented line after
  the second header, which reaches the second message without its indentation.
\<close>

theorem continuation_lines_witness:
  "\<not> is_header (u ''chat export'') \<and>
   parse_lines [u ''[01/01/23, 9:05:00 PM] Alice: Hello'', u ''[02/01/23, 10:00:00 AM] Bob: Hi'']
     ([], None) =
     ([\<lparr>DateTimeStr = u ''01/01/23 9:05:00PM'', Sender = u ''Alice'', Message = u ''Hello''\<rparr>],
      Some \<lparr>DateTimeStr = u ''02/01/23 10:00:00AM'', Sender = u ''Bob'', Message = u ''Hi''\<rparr>) \<and>
   \<not> is_header (u ''   indented  '') \<and>
   assemble [u ''chat export'', u ''[01/01/23, 9:05:00 PM] Alice: Hello''] =
     assemble [u ''[01/01/23, 9:05:00 PM] Alice: Hello''] \<and>
   assemble [u ''[01/01/23, 9:05:00 PM] Alice: Hello'', u ''[02/01/23, 10:00:00 AM] Bob: Hi'',
             u ''   indented  ''] =
     [\<lparr>DateTimeStr = u ''01/01/23 9:05:00PM'', Sender = u ''Alice'', Message = u ''Hello''\<rparr>,
      \<lparr>DateTimeStr = u ''02/01/23 10:00:00AM'', Sender = u ''Bob'',
       Message = u ''Hi'' @ 10 # u ''indented''\<rparr>]"
proof -
  have a: "\<forall>l \<in> set [u ''chat export'']. \<not> is_header l" using nohdr2 by simp
  have c: "\<forall>l \<in> set [u ''   indented  '']. \<not> is_header l" using nohdr1 by simp
  from continuation_lines [OF a two_headers c, of "[u ''[01/01/23, 9:05:00 PM] Alice: Hello'']"]
    nohdr1 nohdr2 two_headers
  show ?thesis
    by (simp add: strip_def is_space_def u_def)
qed

text \<open>
  C7 as stated asks for the continuation line right-trimmed only, its leading whitespace
  kept. The loop strips both ends: the indented line arrives without its indentation.
\<close>

theorem continuation_right_trim_counterexample:
  "assemble [u ''[01/01/23, 9:05:00 PM] Alice: Hello'', u ''   indented  ''] =
     [\<lparr>DateTimeStr = u ''01/01/23 9:05:00PM'', Sender = u ''Alice'',
       Message = u ''Hello'' @ 10 # u ''indented''\<rparr>] \<and>
   u ''Hello'' @ 10 # u ''indented'' \<noteq> u ''Hello'' @ 10 # rstrip (u ''   indented  '')"
  by (simp add: rx_eval)

section \<open>A sender field of whitespace\<close>

text \<open>
  C5, as the code has it. When the bracket with date, time and meridiem matches and the
  text up to the colon is a non-empty run of whitespace, the greedy \<open>\s*\<close> gives its
  last character back to the sender group: the line is a header, it closes the open
  message and opens a new one whose sender is the empty string.
\<close>

theorem blank_sender_is_header:
  assumes "first_match WA_bracket (line, Map.empty) = Some (ws @ 58 # tail, g)"
    and "ws \<noteq> []" and "\<forall>x \<in> set ws. is_space x"
  shows "is_header line \<and>
     parse_lines (line # rest) (data, cur) =
       parse_lines rest
         ((case cur of Some m \<Rightarrow> data @ [m] | None \<Rightarrow> data),
          Some \<lparr>DateTimeStr = DateTimeStr (open_message g), Sender = [],
                Message = strip (takeWhile (\<lambda>c. c \<noteq> 10) (dropWhile is_space tail))\<rparr>)"
proof -
  let ?g = "g(5 \<mapsto> [last ws], 6 \<mapsto> takeWhile (\<lambda>c. c \<noteq> 10) (dropWhile is_space tail))"
  have "first_match (Cat WA_bracket WA_sender_body) (line, Map.empty) =
      Some (dropWhile (\<lambda>c. c \<noteq> 10) (dropWhile is_space tail), ?g)"
    by (rule first_Cat [OF assms(1) blank_sender_first [OF assms(2,3)]])
  then have m: "re_match WA_MESSAGE_START_PATTERN line = Some ?g"
    by (simp add: re_match_def first_match_def WA_MESSAGE_START_PATTERN_def WA_bracket_def
        ms_Cat_assoc del: ms.simps)
  have "is_space (last ws)" using assms(2,3) by simp
  then have "strip [last ws] = []" by (simp add: strip_def)
  then have "open_message ?g = \<lparr>DateTimeStr = DateTimeStr (open_message g), Sender = [],
                Message = strip (takeWhile (\<lambda>c. c \<noteq> 10) (dropWhile is_space tail))\<rparr>"
    by (simp add: open_message_def group_def)
  with m show ?thesis by (simp add: is_header_def)
qed

text \<open>C5: the hypotheses hold for a header whose sender field is three spaces.\<close>

theorem blank_sender_is_header_witness:
  "first_match WA_bracket (u ''[01/01/23, 10:00:00]   : hello'', Map.empty) =
     Some (u ''   '' @ 58 # u '' hello'', [1 \<mapsto> u ''01/01/23'', 2 \<mapsto> u ''10:00:00'', 3 \<mapsto> [], 4 \<mapsto> []]) \<and>
   u ''   '' \<noteq> [] \<and> list_all is_space (u ''   '') \<and>
   is_header (u ''[01/01/23, 10:00:00]   : hello'') \<and>
   parse_lines [u ''[01/01/23, 10:00:00]   : hello''] ([], None) =
     ([], Some \<lparr>DateTimeStr = u ''01/01/23 10:00:00'', Sender = [], Message = u ''hello''\<rparr>)"
proof -
  have h1: "first_match WA_bracket (u ''[01/01/23, 10:00:00]   : hello'', Map.empty) =
     Some (u ''   '' @ 58 # u '' hello'', [1 \<mapsto> u ''01/01/23'', 2 \<mapsto> u ''10:00:00'', 3 \<mapsto> [], 4 \<mapsto> []])"
    by (simp add: rx_eval)
  have h2: "u ''   '' \<noteq> []" by (simp add: u_def)
  have h3: "\<forall>x \<in> set (u ''   ''). is_space x" by (simp add: u_def is_space_def)
  from blank_sender_is_header [OF h1 h2 h3, of "[]" "[]" None] h1 h2 h3 show ?thesis
    by (simp add: open_message_def group_def strip_def is_space_def u_def list_all_iff)
qed

text \<open>
  C5 as stated says that such a line is no header and continues the open message. Here
  the bracket matches, the sender field is blank, and the line starts a second message.
\<close>

theorem blank_sender_counterexample:
  "map_option fst (first_match WA_bracket (u ''[01/01/23, 10:00:00]   : hello'', Map.empty)) =
     Some (u ''   : hello'') \<and>
   strip (u ''   '') = [] \<and>
   is_header (u ''[01/01/23, 10:00:00]   : hello'') \<and>
   assemble [u ''[01/01/23, 9:00:00] Bob: hi'', u ''[01/01/23, 10:00:00]   : hello''] =
     [\<lparr>DateTimeStr = u ''01/01/23 9:00:00'', Sender = u ''Bob'', Message = u ''hi''\<rparr>,
      \<lparr>DateTimeStr = u ''01/01/23 10:00:00'', Sender = [], Message = u ''hello''\<rparr>]"
  by (simp add: rx_eval)
section \<open>The timestamp column\<close>

lemmas pipe_eval = rx_eval strptime_def fmt_12h_def fmt_24h_def rng_def digit_def
  fields_of_def py_int_def digit_value_ascii century_def hour_12_def days_in_month_def
  is_leap_def parseTranscript_def app_parseTranscript_def parse_chat_def splitlines_def
  is_linebreak_def process_dataframe_def app_process_dataframe_def process_with_def
  clean_bodies_def clean_message_def parse_column_def to_datetime_def make_row_def
  month_name_def month_order_def day_name_def day_order_def ordinal_def str_contains_def
  system_messages_def app_system_messages_def

lemmas frame_eval = timelineBuckets_def WhatsAppAnalyzer_def get_timeline_data_def getitem_def
  Overall_def value_counts_def sort_index_def category_counts_def day_order_def month_order_def
  u_def

text \<open>
  C1. With \<open>errors='coerce'\<close> the first call of \<open>to_datetime\<close> raises nothing: a string that
  the 12-hour format does not parse becomes \<open>NaT\<close>. The handler of \<open>ValueError\<close> with the
  24-hour format is never entered, and the column is the 12-hour parse of every string.
\<close>

theorem fallback_unreachable:
  "parse_column col = Inr (map (strptime fmt_12h) col)"
  by (simp add: parse_column_def to_datetime_def)

text \<open>
  C1 on a header without meridiem: the 24-hour format parses the timestamp string, the
  12-hour format does not, the column holds \<open>NaT\<close> for it, and both copies of the pipeline
  return no record.
\<close>

theorem no_meridiem_dropped:
  "parse_chat (u ''[01/01/23, 10:00:00] Alice: Hello'') =
     [\<lparr>DateTimeStr = u ''01/01/23 10:00:00'', Sender = u ''Alice'', Message = u ''Hello''\<rparr>] \<and>
   strptime fmt_24h (u ''01/01/23 10:00:00'') =
     Some \<lparr>ts_year = 2023, ts_month = 1, ts_day = 1, ts_hour = 10, ts_minute = 0, ts_second = 0\<rparr> \<and>
   strptime fmt_12h (u ''01/01/23 10:00:00'') = None \<and>
   parse_column [u ''01/01/23 10:00:00''] = Inr [None] \<and>
   parseTranscript (u ''[01/01/23, 10:00:00] Alice: Hello'') =
     Inr \<lparr>columns = [''day'', ''month'', ''year'', ''hour'', ''minute'', ''sender'', ''message'',
                     ''DateTime''], rows = []\<rparr> \<and>
   app_parseTranscript (u ''[01/01/23, 10:00:00] Alice: Hello'') =
     Inr \<lparr>columns = [''day'', ''month'', ''year'', ''hour'', ''minute'', ''day_of_week'',
                     ''sender'', ''message'', ''DateTime''], rows = []\<rparr>"
  by (simp add: pipe_eval)

section \<open>The hourly histogram\<close>

lemma sorted_sort_index: "sorted (map fst (sort_index xs))"
  by (simp add: sort_index_def)

lemma set_sort_index: "set (sort_index xs) = set xs"
  by (simp add: sort_index_def)

lemma distinct_fst_value_counts: "distinct (map fst (value_counts xs))"
  by (simp add: value_counts_def comp_def)

lemma distinct_fst_sort_index:
  "distinct (map fst xs) \<Longrightarrow> distinct (map fst (sort_index xs))"
  by (simp add: sort_index_def distinct_map)

lemma count_list_map_filter:
  "count_list (map f xs) v = length (filter (\<lambda>x. f x = v) xs)"
  by (induction xs) simp_all

text \<open>
  C9, as the code has it. The hourly histogram is \<open>value_counts().sort_index()\<close> of the
  column \<open>hour\<close>: it has one bucket for every hour in which a record of the scope occurs
  and no other, in ascending order of the hour, each with the number of records of that
  hour, which is positive. An hour without a record has no bucket.
\<close>

theorem hourly_buckets:
  assumes "get_timeline_data a = Inr tb"
  shows "sorted (map fst (Hourly tb)) \<and> distinct (map fst (Hourly tb)) \<and>
     set (map fst (Hourly tb)) = hour ` set (rows (df a)) \<and>
     (\<forall>(h, c) \<in> set (Hourly tb).
        c = length (filter (\<lambda>r. hour r = h) (rows (df a))) \<and> 0 < c)"
proof -
  have H: "Hourly tb = sort_index (value_counts (map hour (rows (df a))))"
    using assms
    by (auto simp: get_timeline_data_def getitem_def split: if_splits sum.splits)
  have 1: "sorted (map fst (Hourly tb))" by (simp add: H sorted_sort_index)
  have 2: "distinct (map fst (Hourly tb))"
    by (simp add: H distinct_fst_sort_index distinct_fst_value_counts)
  have 3: "set (map fst (Hourly tb)) = hour ` set (rows (df a))"
    by (simp add: H set_sort_index value_counts_def image_image)
  have 4: "\<forall>(h, c) \<in> set (Hourly tb).
        c = length (filter (\<lambda>r. hour r = h) (rows (df a))) \<and> 0 < c"
    by (auto simp: H set_sort_index value_counts_def count_list_map_filter filter_empty_conv)
  from 1 2 3 4 show ?thesis by blast
qed

text \<open>
  C9 on three records, two at 21 h and one at 9 h: the histogram has the two buckets 9
  and 21.
\<close>

theorem hourly_buckets_witness:
  "get_timeline_data
     \<lparr>user = Overall,
      df = \<lparr>columns = [''hour'', ''day_of_week'', ''month''],
            rows = [\<lparr>day = 1, month = ''January'', year = 2023, hour = 21, minute = 5,
                     day_of_week = ''Sunday'', sender = u ''Alice'', message = u ''Hello'',
                     DateTime = \<lparr>ts_year = 2023, ts_month = 1, ts_day = 1, ts_hour = 21,
                                 ts_minute = 5, ts_second = 0\<rparr>\<rparr>,
                    \<lparr>day = 2, month = ''January'', year = 2023, hour = 9, minute = 0,
                     day_of_week = ''Monday'', sender = u ''Bob'', message = u ''Hi'',
                     DateTime = \<lparr>ts_year = 2023, ts_month = 1, ts_day = 2, ts_hour = 9,
                                 ts_minute = 0, ts_second = 0\<rparr>\<rparr>,
                    \<lparr>day = 2, month = ''January'', year = 2023, hour = 21, minute = 30,
                     day_of_week = ''Monday'', sender = u ''Alice'', message = u ''Bye'',
                     DateTime = \<lparr>ts_year = 2023, ts_month = 1, ts_day = 2, ts_hour = 21,
                                 ts_minute = 30, ts_second = 0\<rparr>\<rparr>]\<rparr>\<rparr> =
     Inr \<lparr>Hourly = [(9, 1), (21, 2)],
          DayOfWeek = [(''Monday'', 2), (''Tuesday'', 0), (''Wednesday'', 0), (''Thursday'', 0),
                       (''Friday'', 0), (''Saturday'', 0), (''Sunday'', 1)],
          Monthly = [(''January'', 3), (''February'', 0), (''March'', 0), (''April'', 0),
                     (''May'', 0), (''June'', 0), (''July'', 0), (''August'', 0),
                     (''September'', 0), (''October'', 0), (''November'', 0),
                     (''December'', 0)]\<rparr> \<and>
   sorted (map fst [(9::nat, 1::nat), (21, 2)]) \<and>
   distinct (map fst [(9::nat, 1::nat), (21, 2)]) \<and>
   set (map fst [(9::nat, 1::nat), (21, 2)]) = {9, 21}"
proof -
  let ?a = "\<lparr>user = Overall,
      df = \<lparr>columns = [''hour'', ''day_of_week'', ''month''],
            rows = [\<lparr>day = 1, month = ''January'', year = 2023, hour = 21, minute = 5,
                     day_of_week = ''Sunday'', sender = u ''Alice'', message = u ''Hello'',
                     DateTime = \<lparr>ts_year = 2023, ts_month = 1, ts_day = 1, ts_hour = 21,
                                 ts_minute = 5, ts_second = 0\<rparr>\<rparr>,
                    \<lparr>day = 2, month = ''January'', year = 2023, hour = 9, minute = 0,
                     day_of_week = ''Monday'', sender = u ''Bob'', message = u ''Hi'',
                     DateTime = \<lparr>ts_year = 2023, ts_month = 1, ts_day = 2, ts_hour = 9,
                                 ts_minute = 0, ts_second = 0\<rparr>\<rparr>,
                    \<lparr>day = 2, month = ''January'', year = 2023, hour = 21, minute = 30,
                     day_of_week = ''Monday'', sender = u ''Alice'', message = u ''Bye'',
                     DateTime = \<lparr>ts_year = 2023, ts_month = 1, ts_day = 2, ts_hour = 21,
                                 ts_minute = 30, ts_second = 0\<rparr>\<rparr>]\<rparr>\<rparr>"
  have h: "get_timeline_data ?a =
     Inr \<lparr>Hourly = [(9, 1), (21, 2)],
          DayOfWeek = [(''Monday'', 2), (''Tuesday'', 0), (''Wednesday'', 0), (''Thursday'', 0),
                       (''Friday'', 0), (''Saturday'', 0), (''Sunday'', 1)],
          Monthly = [(''January'', 3), (''February'', 0), (''March'', 0), (''April'', 0),
                     (''May'', 0), (''June'', 0), (''July'', 0), (''August'', 0),
                     (''September'', 0), (''October'', 0), (''November'', 0),
                     (''December'', 0)]\<rparr>"
    by (simp add: frame_eval)
  from hourly_buckets [OF h] h show ?thesis by auto
qed

text \<open>
  C9 as stated asks for 24 buckets, zero for an hour without a record. For a transcript
  of one message sent at 21:05 the pipeline of \<open>app.py\<close> returns one record, and the
  hourly histogram of the scope \<open>Overall\<close> is the single bucket of hour 21.
\<close>

theorem hourly_24_counterexample:
  "app_parseTranscript (u ''[01/01/23, 9:05:00 PM] Alice: Hello'') =
     Inr \<lparr>columns = [''day'', ''month'', ''year'', ''hour'', ''minute'', ''day_of_week'',
                     ''sender'', ''message'', ''DateTime''],
          rows = [\<lparr>day = 1, month = ''January'', year = 2023, hour = 21, minute = 5,
                   day_of_week = ''Sunday'', sender = u ''Alice'', message = u ''Hello'',
                   DateTime = \<lparr>ts_year = 2023, ts_month = 1, ts_day = 1, ts_hour = 21,
                               ts_minute = 5, ts_second = 0\<rparr>\<rparr>]\<rparr> \<and>
   map_sum id Hourly
     (timelineBuckets
        \<lparr>columns = [''day'', ''month'', ''year'', ''hour'', ''minute'', ''day_of_week'',
                     ''sender'', ''message'', ''DateTime''],
          rows = [\<lparr>day = 1, month = ''January'', year = 2023, hour = 21, minute = 5,
                   day_of_week = ''Sunday'', sender = u ''Alice'', message = u ''Hello'',
                   DateTime = \<lparr>ts_year = 2023, ts_month = 1, ts_day = 1, ts_hour = 21,
                               ts_minute = 5, ts_second = 0\<rparr>\<rparr>]\<rparr> Overall) = Inr [(21, 1)] \<and>
   length [(21::nat, 1::nat)] \<noteq> 24"
  by (simp add: pipe_eval frame_eval)

section \<open>The two copies of the pipeline\<close>

lemma process_with_Inr:
  "\<exists>rs. process_with phrases returned data =
      Inr \<lparr>columns = (if data = [] then [] else returned), rows = rs\<rparr>"
  by (simp add: process_with_def parse_column_def to_datetime_def Let_def)

text \<open>
  C10. The frame that \<open>process_dataframe\<close> of \<open>data_processor.py\<close> returns never carries
  the column \<open>day_of_week\<close>: for every list of raw messages and every scope the timeline
  of \<open>analysis_engine.py\<close> on that frame raises \<open>KeyError\<close>.
\<close>

theorem standalone_timeline_undefined:
  "\<exists>d k. process_dataframe data = Inr d \<and> timelineBuckets d usr = Inl (KeyError k)"
proof -
  obtain rs where "process_dataframe data =
      Inr \<lparr>columns = (if data = [] then [] else [''day'', ''month'', ''year'', ''hour'',
         ''minute'', ''sender'', ''message'', ''DateTime'']), rows = rs\<rparr>"
    using process_with_Inr unfolding process_dataframe_def by blast
  then show ?thesis
    by (cases "data = []") (simp_all add: timelineBuckets_def WhatsAppAnalyzer_def
        get_timeline_data_def getitem_def)
qed

text \<open>
  C10 on a transcript of two messages, the second with the body \<open>Carol left\<close>: the
  standalone pipeline keeps both records and its timeline raises
  \<open>KeyError('day_of_week')\<close>; the pipeline of \<open>app.py\<close> drops the second record, since its
  list of system messages holds \<open>left\<close>, and its timeline is defined.
\<close>

theorem copies_differ:
  "parseTranscript (u ''[01/01/23, 9:05:00 PM] Alice: Hello'' @ 10 #
                    u ''[01/01/23, 9:06:00 PM] Bob: Carol left'') =
     Inr \<lparr>columns = [''day'', ''month'', ''year'', ''hour'', ''minute'', ''sender'', ''message'',
                     ''DateTime''],
          rows = [\<lparr>day = 1, month = ''January'', year = 2023, hour = 21, minute = 5,
                   day_of_week = ''Sunday'', sender = u ''Alice'', message = u ''Hello'',
                   DateTime = \<lparr>ts_year = 2023, ts_month = 1, ts_day = 1, ts_hour = 21,
                               ts_minute = 5, ts_second = 0\<rparr>\<rparr>,
                  \<lparr>day = 1, month = ''January'', year = 2023, hour = 21, minute = 6,
                   day_of_week = ''Sunday'', sender = u ''Bob'', message = u ''Carol left'',
                   DateTime = \<lparr>ts_year = 2023, ts_month = 1, ts_day = 1, ts_hour = 21,
                               ts_minute = 6, ts_second = 0\<rparr>\<rparr>]\<rparr> \<and>
   app_parseTranscript (u ''[01/01/23, 9:05:00 PM] Alice: Hello'' @ 10 #
                        u ''[01/01/23, 9:06:00 PM] Bob: Carol left'') =
     Inr \<lparr>columns = [''day'', ''month'', ''year'', ''hour'', ''minute'', ''day_of_week'',
                     ''sender'', ''message'', ''DateTime''],
          rows = [\<lparr>day = 1, month = ''January'', year = 2023, hour = 21, minute = 5,
                   day_of_week = ''Sunday'', sender = u ''Alice'', message = u ''Hello'',
                   DateTime = \<lparr>ts_year = 2023, ts_month = 1, ts_day = 1, ts_hour = 21,
                               ts_minute = 5, ts_second = 0\<rparr>\<rparr>]\<rparr> \<and>
   timelineBuckets
     \<lparr>columns = [''day'', ''month'', ''year'', ''hour'', ''minute'', ''sender'', ''message'',
                 ''DateTime''],
      rows = [\<lparr>day = 1, month = ''January'', year = 2023, hour = 21, minute = 5,
               day_of_week = ''Sunday'', sender = u ''Alice'', message = u ''Hello'',
               DateTime = \<lparr>ts_year = 2023, ts_month = 1, ts_day = 1, ts_hour = 21,
                           ts_minute = 5, ts_second = 0\<rparr>\<rparr>,
              \<lparr>day = 1, month = ''January'', year = 2023, hour = 21, minute = 6,
               day_of_week = ''Sunday'', sender = u ''Bob'', message = u ''Carol left'',
               DateTime = \<lparr>ts_year = 2023, ts_month = 1, ts_day = 1, ts_hour = 21,
                           ts_minute = 6, ts_second = 0\<rparr>\<rparr>]\<rparr> Overall =
     Inl (KeyError ''day_of_week'') \<and>
   map_sum id Hourly
     (timelineBuckets
        \<lparr>columns = [''day'', ''month'', ''year'', ''hour'', ''minute'', ''day_of_week'',
                     ''sender'', ''message'', ''DateTime''],
          rows = [\<lparr>day = 1, month = ''January'', year = 2023, hour = 21, minute = 5,
                   day_of_week = ''Sunday'', sender = u ''Alice'', message = u ''Hello'',
                   DateTime = \<lparr>ts_year = 2023, ts_month = 1, ts_day = 1, ts_hour = 21,
                               ts_minute = 5, ts_second = 0\<rparr>\<rparr>]\<rparr> Overall) = Inr [(21, 1)]"
  by (simp add: pipe_eval frame_eval)
section \<open>A transcript without records\<close>

lemma assemble_no_header: "\<not> list_ex is_header lines \<Longrightarrow> assemble lines = []"
  by (simp add: assemble_def flush_def parse_lines_no_header_closed list_ex_iff)

lemma dated_rows_map:
  "dated_rows msgs (map f msgs) =
     map (\<lambda>m. make_row m (the (f m))) (filter (\<lambda>m. f m \<noteq> None) msgs)"
proof (induction msgs)
  case Nil
  show ?case by simp
next
  case (Cons m msgs)
  then show ?case by (cases "f m") simp_all
qed

lemma rows_process_with:
  "process_with phrases returned data =
     Inr \<lparr>columns = (if data = [] then [] else returned),
          rows = map (\<lambda>m. make_row m (the (strptime fmt_12h (DateTimeStr m))))
                   (filter (\<lambda>m. strptime fmt_12h (DateTimeStr m) \<noteq> None \<and>
                               \<not> str_contains phrases (Message m))
                      (clean_bodies data))\<rparr>"
proof -
  have "map (strptime fmt_12h) (map DateTimeStr (clean_bodies data)) =
      map (\<lambda>m. strptime fmt_12h (DateTimeStr m)) (clean_bodies data)"
    by simp
  then have "dated_rows (clean_bodies data) (map (strptime fmt_12h) (map DateTimeStr (clean_bodies data))) =
      map (\<lambda>m. make_row m (the (strptime fmt_12h (DateTimeStr m))))
        (filter (\<lambda>m. strptime fmt_12h (DateTimeStr m) \<noteq> None) (clean_bodies data))"
    by (simp only: dated_rows_map)
  then show ?thesis
    by (simp add: process_with_def parse_column_def to_datetime_def Let_def filter_map comp_def
        make_row_def clean_bodies_def)
qed

lemma no_rows_process_with:
  assumes "list_all (\<lambda>m. clean_message (Message m) = [] \<or>
             strptime fmt_12h (DateTimeStr m) = None \<or>
             str_contains phrases (clean_message (Message m))) data"
  shows "process_with phrases returned data =
     Inr \<lparr>columns = (if data = [] then [] else returned), rows = []\<rparr>"
  using assms
  by (auto simp: rows_process_with clean_bodies_def list_all_iff filter_empty_conv)

text \<open>
  C8. \<open>parseTranscript\<close> never raises. When no line of the text matches the header
  pattern, it returns the frame without rows (and without columns) that \<open>parse_chat\<close>
  built. When every raw message is dropped, because its body is empty after cleaning,
  or its timestamp string does not parse, or its body contains a system message, it
  returns a frame without rows. Both hold for the copy of \<open>app.py\<close> with its own list of
  system messages.
\<close>

theorem empty_result:
  "(\<exists>d. parseTranscript text = Inr d) \<and> (\<exists>d. app_parseTranscript text = Inr d) \<and>
   (\<not> list_ex is_header (splitlines text) \<longrightarrow>
      parseTranscript text = Inr \<lparr>columns = [], rows = []\<rparr> \<and>
      app_parseTranscript text = Inr \<lparr>columns = [], rows = []\<rparr>) \<and>
   (list_all (\<lambda>m. clean_message (Message m) = [] \<or>
                  strptime fmt_12h (DateTimeStr m) = None \<or>
                  str_contains system_messages (clean_message (Message m))) (parse_chat text) \<longrightarrow>
      (\<exists>cols. parseTranscript text = Inr \<lparr>columns = cols, rows = []\<rparr>)) \<and>
   (list_all (\<lambda>m. clean_message (Message m) = [] \<or>
                  strptime fmt_12h (DateTimeStr m) = None \<or>
                  str_contains app_system_messages (clean_message (Message m))) (parse_chat text) \<longrightarrow>
      (\<exists>cols. app_parseTranscript text = Inr \<lparr>columns = cols, rows = []\<rparr>))"
proof -
  have 1: "\<exists>d. parseTranscript text = Inr d"
    by (simp add: parseTranscript_def process_dataframe_def rows_process_with)
  have 2: "\<exists>d. app_parseTranscript text = Inr d"
    by (simp add: app_parseTranscript_def app_process_dataframe_def rows_process_with)
  have 3: "\<not> list_ex is_header (splitlines text) \<longrightarrow>
      parseTranscript text = Inr \<lparr>columns = [], rows = []\<rparr> \<and>
      app_parseTranscript text = Inr \<lparr>columns = [], rows = []\<rparr>"
    by (simp add: parseTranscript_def app_parseTranscript_def process_dataframe_def
        app_process_dataframe_def parse_chat_def assemble_no_header process_with_def)
  have 4: "list_all (\<lambda>m. clean_message (Message m) = [] \<or>
                  strptime fmt_12h (DateTimeStr m) = None \<or>
                  str_contains system_messages (clean_message (Message m))) (parse_chat text) \<longrightarrow>
      (\<exists>cols. parseTranscript text = Inr \<lparr>columns = cols, rows = []\<rparr>)"
    by (simp add: parseTranscript_def process_dataframe_def no_rows_process_with)
  have 5: "list_all (\<lambda>m. clean_message (Message m) = [] \<or>
                  strptime fmt_12h (DateTimeStr m) = None \<or>
                  str_contains app_system_messages (clean_message (Message m))) (parse_chat text) \<longrightarrow>
      (\<exists>cols. app_parseTranscript text = Inr \<lparr>columns = cols, rows = []\<rparr>)"
    by (simp add: app_parseTranscript_def app_process_dataframe_def no_rows_process_with)
  from 1 2 3 4 5 show ?thesis by blast
qed

lemma no_header_text: "\<not> list_ex is_header (splitlines (u ''chat export'' @ 10 # u ''second line''))"
  by (simp add: pipe_eval)

lemma dropped_text:
  "parse_chat (u ''[01/01/23, 10:00:00] Alice: Hello'' @ 10 #
               u ''[01/01/23, 9:05:00 PM] Bob: image omitted'' @ 10 #
               u ''[01/01/23, 9:06:00 PM] Carol: '') =
     [\<lparr>DateTimeStr = u ''01/01/23 10:00:00'', Sender = u ''Alice'', Message = u ''Hello''\<rparr>,
      \<lparr>DateTimeStr = u ''01/01/23 9:05:00PM'', Sender = u ''Bob'', Message = u ''image omitted''\<rparr>,
      \<lparr>DateTimeStr = u ''01/01/23 9:06:00PM'', Sender = u ''Carol'', Message = []\<rparr>]"
  by (simp add: pipe_eval)

lemma dropped_1: "strptime fmt_12h (u ''01/01/23 10:00:00'') = None"
  by (simp add: pipe_eval)

lemma dropped_2: "str_contains system_messages (clean_message (u ''image omitted''))"
  by (simp add: pipe_eval)

lemma dropped_2_app: "str_contains app_system_messages (clean_message (u ''image omitted''))"
  by (simp add: pipe_eval)

lemma dropped_3: "clean_message [] = []"
  by (simp add: pipe_eval)

text \<open>
  C8 on a text of two lines without a header, and on a transcript of three messages:
  one without meridiem, one with the body \<open>image omitted\<close> and one with an empty body.
\<close>

theorem empty_result_witness:
  "\<not> list_ex is_header (splitlines (u ''chat export'' @ 10 # u ''second line'')) \<and>
   parseTranscript (u ''chat export'' @ 10 # u ''second line'') = Inr \<lparr>columns = [], rows = []\<rparr> \<and>
   app_parseTranscript (u ''chat export'' @ 10 # u ''second line'') =
     Inr \<lparr>columns = [], rows = []\<rparr> \<and>
   parse_chat (u ''[01/01/23, 10:00:00] Alice: Hello'' @ 10 #
               u ''[01/01/23, 9:05:00 PM] Bob: image omitted'' @ 10 #
               u ''[01/01/23, 9:06:00 PM] Carol: '') =
     [\<lparr>DateTimeStr = u ''01/01/23 10:00:00'', Sender = u ''Alice'', Message = u ''Hello''\<rparr>,
      \<lparr>DateTimeStr = u ''01/01/23 9:05:00PM'', Sender = u ''Bob'', Message = u ''image omitted''\<rparr>,
      \<lparr>DateTimeStr = u ''01/01/23 9:06:00PM'', Sender = u ''Carol'', Message = []\<rparr>] \<and>
   strptime fmt_12h (u ''01/01/23 10:00:00'') = None \<and>
   str_contains system_messages (clean_message (u ''image omitted'')) \<and>
   str_contains app_system_messages (clean_message (u ''image omitted'')) \<and>
   clean_message [] = [] \<and>
   (\<exists>cols. parseTranscript (u ''[01/01/23, 10:00:00] Alice: Hello'' @ 10 #
               u ''[01/01/23, 9:05:00 PM] Bob: image omitted'' @ 10 #
               u ''[01/01/23, 9:06:00 PM] Carol: '') = Inr \<lparr>columns = cols, rows = []\<rparr>) \<and>
   (\<exists>cols. app_parseTranscript (u ''[01/01/23, 10:00:00] Alice: Hello'' @ 10 #
               u ''[01/01/23, 9:05:00 PM] Bob: image omitted'' @ 10 #
               u ''[01/01/23, 9:06:00 PM] Carol: '') = Inr \<lparr>columns = cols, rows = []\<rparr>)"
proof -
  let ?t = "u ''[01/01/23, 10:00:00] Alice: Hello'' @ 10 #
               u ''[01/01/23, 9:05:00 PM] Bob: image omitted'' @ 10 #
               u ''[01/01/23, 9:06:00 PM] Carol: ''"
  have a: "list_all (\<lambda>m. clean_message (Message m) = [] \<or>
                  strptime fmt_12h (DateTimeStr m) = None \<or>
                  str_contains system_messages (clean_message (Message m))) (parse_chat ?t)"
    by (simp add: dropped_text dropped_1 dropped_2 dropped_3)
  have b: "list_all (\<lambda>m. clean_message (Message m) = [] \<or>
                  strptime fmt_12h (DateTimeStr m) = None \<or>
                  str_contains app_system_messages (clean_message (Message m))) (parse_chat ?t)"
    by (simp add: dropped_text dropped_1 dropped_2_app dropped_3)
  from empty_result [of "u ''chat export'' @ 10 # u ''second line''"] no_header_text
  have c: "parseTranscript (u ''chat export'' @ 10 # u ''second line'') =
        Inr \<lparr>columns = [], rows = []\<rparr> \<and>
      app_parseTranscript (u ''chat export'' @ 10 # u ''second line'') =
        Inr \<lparr>columns = [], rows = []\<rparr>"
    by blast
  from empty_result [of ?t] a b
  have d: "(\<exists>cols. parseTranscript ?t = Inr \<lparr>columns = cols, rows = []\<rparr>) \<and>
      (\<exists>cols. app_parseTranscript ?t = Inr \<lparr>columns = cols, rows = []\<rparr>)"
    by blast
  from c d no_header_text dropped_text dropped_1 dropped_2 dropped_2_app dropped_3
  show ?thesis by blast
qed
section \<open>The filter of system messages\<close>












section \<open>The year of a two-digit token\<close>

lemma first_match_in: "first_match r st = Some x \<Longrightarrow> x \<in> set (ms r st)"
  by (auto simp: first_match_def split: list.splits)

lemma ms_keeps:
  "(s', c') \<in> set (ms r (s, c)) \<Longrightarrow> n \<notin> groups_of r \<Longrightarrow> c' n = c n"
proof (induction r arbitrary: s c s' c')
  case (Cls p)
  then show ?case by (auto split: list.splits if_splits)
next
  case (Rep p lo hi)
  then show ?case by auto
next
  case (Cat a b)
  from Cat.prems(1) obtain y where y: "y \<in> set (ms a (s, c))" and x: "(s', c') \<in> set (ms b y)"
    by auto
  obtain s1 c1 where y1: "y = (s1, c1)" by (cases y)
  have "c1 n = c n" using Cat.IH(1) [of s1 c1 s c] y y1 Cat.prems(2) by simp
  moreover have "c' n = c1 n" using Cat.IH(2) [of s' c' s1 c1] x y1 Cat.prems(2) by simp
  ultimately show ?case by simp
next
  case (Alt a b)
  then show ?case by auto
next
  case (Grp k r)
  from Grp.prems(1) obtain c0 where "(s', c0) \<in> set (ms r (s, c))"
    and c': "c' = c0(k \<mapsto> take (length s - length s') s)"
    by auto
  then have "c0 n = c n" using Grp.IH [of s' c0 s c] Grp.prems(2) by simp
  then show ?case using c' Grp.prems(2) by simp
next
  case Eps
  then show ?case by simp
qed

lemma groups_of_ci_word: "groups_of (ci_word w) = {}"
  by (induction w) simp_all

lemma ms_lit: "x \<in> set (ms (lit k) (s, c)) \<longleftrightarrow> (\<exists>s'. s = k # s' \<and> x = (s', c))"
  by (cases s) (auto simp: lit_def)

lemma ms_digits2:
  "x \<in> set (ms digits2 (s, c)) \<longleftrightarrow>
     (\<exists>a b s'. s = a # b # s' \<and> is_digit a \<and> is_digit b \<and> x = (s', c))"
proof (cases s)
  case Nil
  then show ?thesis by (simp add: digits2_def rep_rests_def)
next
  case (Cons a t)
  show ?thesis
  proof (cases t)
    case Nil
    then show ?thesis using Cons by (simp add: digits2_def rep_rests_def)
  next
    case (Cons b s')
    then show ?thesis using \<open>s = a # t\<close>
      by (auto simp: digits2_def rep_rests_def)
  qed
qed

lemma set_ms_Cat:
  "x \<in> set (ms (Cat a b) st) \<longleftrightarrow> (\<exists>y. y \<in> set (ms a st) \<and> x \<in> set (ms b y))"
  by auto

lemma set_ms_Grp:
  "(s', c') \<in> set (ms (Grp n r) (s, c)) \<longleftrightarrow>
     (\<exists>c0. (s', c0) \<in> set (ms r (s, c)) \<and> c' = c0(n \<mapsto> take (length s - length s') s))"
  by auto

lemma ms_date_group:
  assumes "(s', c') \<in> set (ms (Grp 1 (Cat digits2 (Cat (lit 47) (Cat digits2 (Cat (lit 47) digits2)))))
      (s, c))"
  shows "\<exists>d1 d2 m1 m2 y1 y2. c' 1 = Some [d1, d2, 47, m1, m2, 47, y1, y2] \<and>
     is_digit d1 \<and> is_digit d2 \<and> is_digit m1 \<and> is_digit m2 \<and> is_digit y1 \<and> is_digit y2"
proof -
  from assms obtain c0 where
    m: "(s', c0) \<in> set (ms (Cat digits2 (Cat (lit 47) (Cat digits2 (Cat (lit 47) digits2)))) (s, c))"
    and c': "c' = c0(1 \<mapsto> take (length s - length s') s)"
    unfolding set_ms_Grp by blast
  from m obtain x1 x2 x3 x4 where
    1: "x1 \<in> set (ms digits2 (s, c))" and 2: "x2 \<in> set (ms (lit 47) x1)"
    and 3: "x3 \<in> set (ms digits2 x2)" and 4: "x4 \<in> set (ms (lit 47) x3)"
    and 5: "(s', c0) \<in> set (ms digits2 x4)"
    unfolding set_ms_Cat by blast
  from 1 [unfolded ms_digits2] obtain d1 d2 s1 where s: "s = d1 # d2 # s1"
    and d: "is_digit d1" "is_digit d2" and x1: "x1 = (s1, c)"
    by blast
  from 2 [unfolded x1 ms_lit] obtain s2 where s1: "s1 = 47 # s2" and x2: "x2 = (s2, c)"
    by blast
  from 3 [unfolded x2 ms_digits2] obtain m1 m2 s3 where s2: "s2 = m1 # m2 # s3"
    and mm: "is_digit m1" "is_digit m2" and x3: "x3 = (s3, c)"
    by blast
  from 4 [unfolded x3 ms_lit] obtain s4 where s3: "s3 = 47 # s4" and x4: "x4 = (s4, c)"
    by blast
  from 5 [unfolded x4 ms_digits2] obtain y1 y2 s5 where s4: "s4 = y1 # y2 # s5"
    and y: "is_digit y1" "is_digit y2" and e: "(s', c0) = (s5, c)"
    by blast
  have "take (length s - length s') s = [d1, d2, 47, m1, m2, 47, y1, y2]"
    using s s1 s2 s3 s4 e by simp
  then show ?thesis using c' d mm y by simp
qed

lemma header_date:
  assumes "re_match WA_MESSAGE_START_PATTERN line = Some g"
  shows "\<exists>d1 d2 m1 m2 y1 y2. group g 1 = [d1, d2, 47, m1, m2, 47, y1, y2] \<and>
     is_digit d1 \<and> is_digit d2 \<and> is_digit m1 \<and> is_digit m2 \<and> is_digit y1 \<and> is_digit y2"
proof -
  let ?date = "Grp 1 (Cat digits2 (Cat (lit 47) (Cat digits2 (Cat (lit 47) digits2))))"
  let ?time = "Cat (lit 44) (Cat (Rep is_space 0 None)
         (Grp 2 (Cat (Rep is_digit 1 (Some 2))
                (Cat (lit 58) (Cat digits2 (Cat (lit 58) digits2))))))"
  from assms obtain r where "first_match WA_MESSAGE_START_PATTERN (line, Map.empty) = Some (r, g)"
    by (auto simp: re_match_def)
  then have "(r, g) \<in> set (ms WA_MESSAGE_START_PATTERN (line, Map.empty))"
    by (rule first_match_in)
  then obtain x1 x2 x3 where 1: "x1 \<in> set (ms (lit 91) (line, Map.empty))"
    and 2: "x2 \<in> set (ms ?date x1)" and 3: "x3 \<in> set (ms ?time x2)"
    and 4: "(r, g) \<in> set (ms (Cat WA_meridiem WA_sender_body) x3)"
    unfolding WA_MESSAGE_START_PATTERN_def WA_date_time_def set_ms_Cat by blast
  obtain s1 c1 where x1: "x1 = (s1, c1)" by (cases x1)
  obtain s2 c2 where x2: "x2 = (s2, c2)" by (cases x2)
  obtain s3 c3 where x3: "x3 = (s3, c3)" by (cases x3)
  from ms_date_group [of s2 c2 s1 c1] 2 x1 x2
  obtain d1 d2 m1 m2 y1 y2 where c2: "c2 1 = Some [d1, d2, 47, m1, m2, 47, y1, y2]"
    and d: "is_digit d1" "is_digit d2" "is_digit m1" "is_digit m2" "is_digit y1" "is_digit y2"
    by blast
  have "c3 1 = c2 1"
    using ms_keeps [of s3 c3 ?time s2 c2 1] 3 x2 x3 by (simp add: digits2_def lit_def)
  moreover have "g 1 = c3 1"
    using ms_keeps [of r g "Cat WA_meridiem WA_sender_body" s3 c3 1] 4 x3
    by (simp add: WA_meridiem_def WA_sender_body_def lit_def groups_of_ci_word del: ms.simps)
  ultimately have "group g 1 = [d1, d2, 47, m1, m2, 47, y1, y2]"
    using c2 by (simp add: group_def)
  with d show ?thesis by blast
qed

lemma digit_not_space: "is_digit c \<Longrightarrow> \<not> is_space c"
  by (auto simp: is_digit_def decimal_zeros_def is_space_def)

lemma not_digit_47: "\<not> is_digit 47"
  by (simp add: is_digit_ascii)

lemma ms_Dd:
  "x \<in> set (ms (directive_rx Dd) (a # b # s, c)) \<Longrightarrow>
   (\<exists>c'. x = (s, c')) \<or> (\<exists>c'. x = (b # s, c'))"
  by (auto simp: lit_def rng_def digit_def split: if_splits)

lemma ms_Dm:
  "x \<in> set (ms (directive_rx Dm) (a # b # s, c)) \<Longrightarrow>
   (\<exists>c'. x = (s, c')) \<or> (\<exists>c'. x = (b # s, c'))"
  by (auto simp: lit_def rng_def split: if_splits)

lemma ms_Dy:
  "x \<in> set (ms (directive_rx Dy) (a # b # s, c)) \<Longrightarrow> x = (s, c(3 \<mapsto> [a, b]))"
  by (auto simp: digit_def split: if_splits)

lemma fmt_year_group:
  assumes "(rest, gg) \<in> set (ms (format_regex fmt_12h)
      (d1 # d2 # 47 # m1 # m2 # 47 # y1 # y2 # s, c))"
    and "is_digit d2" and "is_digit m2"
  shows "gg 3 = Some [y1, y2]"
proof -
  let ?tail = "format_regex [Ws, DI, Ch 58, DM, Ch 58, DS, Dp]"
  have f: "format_regex fmt_12h =
      Cat (directive_rx Dd) (Cat (lit 47) (Cat (directive_rx Dm) (Cat (lit 47)
        (Cat (directive_rx Dy) ?tail))))"
    by (simp add: fmt_12h_def)
  from assms(1) obtain x1 x2 x3 x4 x5 where
    1: "x1 \<in> set (ms (directive_rx Dd) (d1 # d2 # 47 # m1 # m2 # 47 # y1 # y2 # s, c))"
    and 2: "x2 \<in> set (ms (lit 47) x1)"
    and 3: "x3 \<in> set (ms (directive_rx Dm) x2)"
    and 4: "x4 \<in> set (ms (lit 47) x3)"
    and 5: "x5 \<in> set (ms (directive_rx Dy) x4)"
    and 6: "(rest, gg) \<in> set (ms ?tail x5)"
    unfolding f set_ms_Cat by blast
  from ms_Dd [OF 1] 2 assms(2) obtain c1 where x1: "x1 = (47 # m1 # m2 # 47 # y1 # y2 # s, c1)"
    by (auto simp: ms_lit not_digit_47)
  from 2 [unfolded x1 ms_lit] have x2: "x2 = (m1 # m2 # 47 # y1 # y2 # s, c1)"
    by simp
  from ms_Dm [OF 3 [unfolded x2]] 4 assms(3) obtain c3 where x3: "x3 = (47 # y1 # y2 # s, c3)"
    by (auto simp: ms_lit not_digit_47)
  from 4 [unfolded x3 ms_lit] have x4: "x4 = (y1 # y2 # s, c3)"
    by simp
  from ms_Dy [OF 5 [unfolded x4]] have x5: "x5 = (s, c3(3 \<mapsto> [y1, y2]))" .
  have "3 \<notin> groups_of ?tail"
    by (simp add: lit_def rng_def digit_def groups_of_ci_word)
  from ms_keeps [OF 6 [unfolded x5] this] show ?thesis by simp
qed

lemma fields_of_year:
  "fields_of g = Some t \<Longrightarrow> g 3 = Some tok \<Longrightarrow> ts_year t = century (py_int tok)"
  by (auto simp: fields_of_def Let_def split: if_splits)

lemma py_int_two:
  "is_digit a \<Longrightarrow> is_digit b \<Longrightarrow> py_int [a, b] = 10 * digit_value a + digit_value b"
  by (simp add: py_int_def strip_def digit_not_space)

text \<open>
  C6, as the code has it. For every header line whose timestamp string parses, the date
  token ends in the two digits of the year, and the year of the record is 2000 plus
  their value when the value is at most 68, and 1900 plus their value when it is 69 or
  more.
\<close>

theorem two_digit_year:
  assumes "re_match WA_MESSAGE_START_PATTERN line = Some g"
    and "strptime fmt_12h (DateTimeStr (open_message g)) = Some t"
  shows "\<exists>y1 y2. drop 6 (group g 1) = [y1, y2] \<and>
     year (make_row m t) =
       (if 10 * digit_value y1 + digit_value y2 \<le> 68
        then 2000 + (10 * digit_value y1 + digit_value y2)
        else 1900 + (10 * digit_value y1 + digit_value y2))"
proof -
  from header_date [OF assms(1)] obtain d1 d2 m1 m2 y1 y2 where
    g1: "group g 1 = [d1, d2, 47, m1, m2, 47, y1, y2]"
    and d: "is_digit d2" "is_digit m2" "is_digit y1" "is_digit y2"
    by blast
  obtain s where s: "DateTimeStr (open_message g) = d1 # d2 # 47 # m1 # m2 # 47 # y1 # y2 # s"
    using g1 by (simp add: open_message_def Let_def)
  from assms(2) obtain rest gg where
    fm: "first_match (format_regex fmt_12h) (DateTimeStr (open_message g), Map.empty) = Some (rest, gg)"
    and fo: "fields_of gg = Some t"
    by (auto simp: strptime_def split: option.splits if_splits)
  from first_match_in [OF fm] have "gg 3 = Some [y1, y2]"
    unfolding s by (rule fmt_year_group) (rule d)+
  from fields_of_year [OF fo this] have "ts_year t = century (10 * digit_value y1 + digit_value y2)"
    by (simp add: py_int_two d)
  then show ?thesis using g1 by (simp add: make_row_def century_def)
qed

lemma header_99:
  "re_match WA_MESSAGE_START_PATTERN (u ''[01/01/99, 9:05:00 PM] Alice: Hello'') =
   Some [1 \<mapsto> u ''01/01/99'', 2 \<mapsto> u ''9:05:00'', 3 \<mapsto> [], 4 \<mapsto> u ''PM'', 5 \<mapsto> u ''Alice'',
         6 \<mapsto> u ''Hello'']"
  by (simp add: rx_eval)

lemma parsed_99:
  "strptime fmt_12h (u ''01/01/99 9:05:00PM'') =
     Some \<lparr>ts_year = 1999, ts_month = 1, ts_day = 1, ts_hour = 21, ts_minute = 5, ts_second = 0\<rparr>"
  by (simp add: pipe_eval)

text \<open>C6 on a header with the year token 99: the year of the record is 1999.\<close>

theorem two_digit_year_witness:
  "re_match WA_MESSAGE_START_PATTERN (u ''[01/01/99, 9:05:00 PM] Alice: Hello'') =
   Some [1 \<mapsto> u ''01/01/99'', 2 \<mapsto> u ''9:05:00'', 3 \<mapsto> [], 4 \<mapsto> u ''PM'', 5 \<mapsto> u ''Alice'',
         6 \<mapsto> u ''Hello''] \<and>
   strptime fmt_12h (u ''01/01/99 9:05:00PM'') =
     Some \<lparr>ts_year = 1999, ts_month = 1, ts_day = 1, ts_hour = 21, ts_minute = 5, ts_second = 0\<rparr> \<and>
   year (make_row \<lparr>DateTimeStr = u ''01/01/99 9:05:00PM'', Sender = u ''Alice'', Message = u ''Hello''\<rparr>
     \<lparr>ts_year = 1999, ts_month = 1, ts_day = 1, ts_hour = 21, ts_minute = 5, ts_second = 0\<rparr>) =
     1900 + (10 * digit_value 57 + digit_value 57)"
proof -
  let ?g = "[1 \<mapsto> u ''01/01/99'', 2 \<mapsto> u ''9:05:00'', 3 \<mapsto> [], 4 \<mapsto> u ''PM'', 5 \<mapsto> u ''Alice'',
         6 \<mapsto> u ''Hello'']"
  have s: "DateTimeStr (open_message ?g) = u ''01/01/99 9:05:00PM''"
    by (simp add: open_message_def group_def strip_def is_space_def u_def)
  have p: "strptime fmt_12h (DateTimeStr (open_message ?g)) =
     Some \<lparr>ts_year = 1999, ts_month = 1, ts_day = 1, ts_hour = 21, ts_minute = 5, ts_second = 0\<rparr>"
    unfolding s by (rule parsed_99)
  from two_digit_year [OF header_99 p,
      of "\<lparr>DateTimeStr = u ''01/01/99 9:05:00PM'', Sender = u ''Alice'', Message = u ''Hello''\<rparr>"]
    header_99 parsed_99
  show ?thesis
    by (auto simp: group_def u_def digit_value_ascii)
qed

text \<open>
  C6 as stated takes every token 00 to 99 to the years 2000 to 2099. For the token 99
  the pipeline returns a record of the year 1999, a Friday, and not of 2099.
\<close>

theorem year_2000_counterexample:
  "parseTranscript (u ''[01/01/99, 9:05:00 PM] Alice: Hello'') =
     Inr \<lparr>columns = [''day'', ''month'', ''year'', ''hour'', ''minute'', ''sender'', ''message'',
                     ''DateTime''],
          rows = [\<lparr>day = 1, month = ''January'', year = 1999, hour = 21, minute = 5,
                   day_of_week = ''Friday'', sender = u ''Alice'', message = u ''Hello'',
                   DateTime = \<lparr>ts_year = 1999, ts_month = 1, ts_day = 1, ts_hour = 21,
                               ts_minute = 5, ts_second = 0\<rparr>\<rparr>]\<rparr> \<and>
   (1999::nat) \<noteq> 2000 + 99"
  by (simp add: pipe_eval)
section \<open>A header with a narrow no-break space before the meridiem\<close>

lemma ascii_digit: "48 \<le> c \<Longrightarrow> c \<le> 57 \<Longrightarrow> is_digit c \<and> \<not> is_space c"
  by (simp add: is_digit_ascii is_space_def)

lemma py_int_ascii1: "48 \<le> a \<Longrightarrow> a \<le> 57 \<Longrightarrow> py_int [a] = a - 48"
  by (simp add: py_int_def strip_def ascii_digit digit_value_ascii)

lemma py_int_ascii2:
  "48 \<le> a \<Longrightarrow> a \<le> 57 \<Longrightarrow> 48 \<le> b \<Longrightarrow> b \<le> 57 \<Longrightarrow>
   py_int [a, b] = 10 * (a - 48) + (b - 48)"
  by (simp add: py_int_def strip_def ascii_digit digit_value_ascii)

lemma first_lit: "first_match (lit k) (k # s, c) = Some (s, c)"
  by (simp add: lit_def first_Cls)

lemma first_Dd:
  assumes "48 \<le> a" "a \<le> 57" "48 \<le> b" "b \<le> 57"
    and "1 \<le> 10 * (a - 48) + (b - 48)" and "10 * (a - 48) + (b - 48) \<le> 31"
  shows "first_match (directive_rx Dd) (a # b # s, c) = Some (s, c(1 \<mapsto> [a, b]))"
  using assms
  by (auto simp: first_match_def lit_def rng_def digit_def is_digit_ascii)

lemma first_Dm:
  assumes "48 \<le> a" "a \<le> 57" "48 \<le> b" "b \<le> 57"
    and "1 \<le> 10 * (a - 48) + (b - 48)" and "10 * (a - 48) + (b - 48) \<le> 12"
  shows "first_match (directive_rx Dm) (a # b # s, c) = Some (s, c(2 \<mapsto> [a, b]))"
  using assms
  by (auto simp: first_match_def lit_def rng_def)

lemma first_Dy:
  assumes "48 \<le> a" "a \<le> 57" "48 \<le> b" "b \<le> 57"
  shows "first_match (directive_rx Dy) (a # b # s, c) = Some (s, c(3 \<mapsto> [a, b]))"
  using assms
  by (auto simp: first_match_def digit_def is_digit_ascii)

lemma first_DI2:
  assumes "48 \<le> a" "a \<le> 57" "48 \<le> b" "b \<le> 57"
    and "1 \<le> 10 * (a - 48) + (b - 48)" and "10 * (a - 48) + (b - 48) \<le> 12"
  shows "first_match (directive_rx DI) (a # b # s, c) = Some (s, c(5 \<mapsto> [a, b]))"
  using assms
  by (auto simp: first_match_def lit_def rng_def)

lemma first_DI1:
  assumes "49 \<le> a" "a \<le> 57"
  shows "first_match (directive_rx DI) (a # 58 # s, c) = Some (58 # s, c(5 \<mapsto> [a]))"
  using assms
  by (auto simp: first_match_def lit_def rng_def)

lemma first_DM:
  assumes "48 \<le> a" "a \<le> 57" "48 \<le> b" "b \<le> 57" and "10 * (a - 48) + (b - 48) \<le> 59"
  shows "first_match (directive_rx DM) (a # b # s, c) = Some (s, c(6 \<mapsto> [a, b]))"
  using assms
  by (auto simp: first_match_def rng_def digit_def is_digit_ascii)

lemma first_DS:
  assumes "48 \<le> a" "a \<le> 57" "48 \<le> b" "b \<le> 57" and "10 * (a - 48) + (b - 48) \<le> 59"
  shows "first_match (directive_rx DS) (a # b # s, c) = Some (s, c(7 \<mapsto> [a, b]))"
  using assms
  by (auto simp: first_match_def lit_def rng_def digit_def is_digit_ascii)

lemma first_Dp:
  assumes "ci 65 a \<or> ci 80 a" and "ci 77 b"
  shows "first_match (directive_rx Dp) (a # b # s, c) = Some (s, c(8 \<mapsto> [a, b]))"
  using assms
  by (auto simp: first_match_def u_def ci_def sre_lower_def Let_def)

lemma space_32: "is_space 32"
  by (simp add: is_space_def)

lemma first_Ws:
  assumes "\<not> is_space x"
  shows "first_match (directive_rx Ws) (32 # x # s, c) = Some (x # s, c)"
proof -
  show ?thesis
    using first_Rep [where lo = 1 and hi = None and p = is_space and s = "32 # x # s" and c = c]
    by (simp add: space_32 assms)
qed

lemma first_DI:
  assumes "(hh = [h1] \<and> 49 \<le> h1 \<and> h1 \<le> 57) \<or>
     (hh = [h1, h2] \<and> 48 \<le> h1 \<and> h1 \<le> 57 \<and> 48 \<le> h2 \<and> h2 \<le> 57 \<and>
      1 \<le> 10 * (h1 - 48) + (h2 - 48) \<and> 10 * (h1 - 48) + (h2 - 48) \<le> 12)"
  shows "first_match (directive_rx DI) (hh @ 58 # s, c) = Some (58 # s, c(5 \<mapsto> hh))"
  using assms first_DI1 [of h1 s c] first_DI2 [of h1 h2 "58 # s" c] by auto

lemma strptime_12h:
  assumes d: "48 \<le> d1" "d1 \<le> 57" "48 \<le> d2" "d2 \<le> 57"
    and m: "48 \<le> m1" "m1 \<le> 57" "48 \<le> m2" "m2 \<le> 57"
    and y: "48 \<le> y1" "y1 \<le> 57" "48 \<le> y2" "y2 \<le> 57"
    and h: "(hh = [h1] \<and> 49 \<le> h1 \<and> h1 \<le> 57) \<or>
     (hh = [h1, h2] \<and> 48 \<le> h1 \<and> h1 \<le> 57 \<and> 48 \<le> h2 \<and> h2 \<le> 57 \<and>
      1 \<le> 10 * (h1 - 48) + (h2 - 48) \<and> 10 * (h1 - 48) + (h2 - 48) \<le> 12)"
    and n: "48 \<le> n1" "n1 \<le> 57" "48 \<le> n2" "n2 \<le> 57"
    and s: "48 \<le> s1" "s1 \<le> 57" "48 \<le> s2" "s2 \<le> 57"
    and day: "1 \<le> py_int [d1, d2]"
      "py_int [d1, d2] \<le> days_in_month (century (py_int [y1, y2])) (py_int [m1, m2])"
    and month: "1 \<le> py_int [m1, m2]" "py_int [m1, m2] \<le> 12"
    and minute: "py_int [n1, n2] \<le> 59" and second: "py_int [s1, s2] \<le> 59"
    and mer: "ci 65 a \<or> ci 80 a" "ci 77 b"
  shows "strptime fmt_12h
      (d1 # d2 # 47 # m1 # m2 # 47 # y1 # y2 # 32 # hh @ 58 # n1 # n2 # 58 # s1 # s2 # [a, b]) =
     Some \<lparr>ts_year = century (py_int [y1, y2]), ts_month = py_int [m1, m2],
           ts_day = py_int [d1, d2], ts_hour = hour_12 (py_int hh) (map sre_lower [a, b]),
           ts_minute = py_int [n1, n2], ts_second = py_int [s1, s2]\<rparr>"
proof -
  have pd: "py_int [d1, d2] = 10 * (d1 - 48) + (d2 - 48)" by (rule py_int_ascii2) (rule d)+
  have pm: "py_int [m1, m2] = 10 * (m1 - 48) + (m2 - 48)" by (rule py_int_ascii2) (rule m)+
  have pn: "py_int [n1, n2] = 10 * (n1 - 48) + (n2 - 48)" by (rule py_int_ascii2) (rule n)+
  have ps: "py_int [s1, s2] = 10 * (s1 - 48) + (s2 - 48)" by (rule py_int_ascii2) (rule s)+
  have dm: "days_in_month yy mo \<le> 31" for yy mo by (simp add: days_in_month_def)
  have d31: "10 * (d1 - 48) + (d2 - 48) \<le> 31"
    using day(2) dm [of "century (py_int [y1, y2])" "py_int [m1, m2]"] pd by simp
  obtain x hs where hh: "hh = x # hs" and x: "\<not> is_space x"
    using h by (auto simp: is_space_def)
  let ?c1 = "[1 \<mapsto> [d1, d2]]"
  let ?c2 = "?c1(2 \<mapsto> [m1, m2])"
  let ?c3 = "?c2(3 \<mapsto> [y1, y2])"
  let ?c5 = "?c3(5 \<mapsto> hh)"
  let ?c6 = "?c5(6 \<mapsto> [n1, n2])"
  let ?c7 = "?c6(7 \<mapsto> [s1, s2])"
  let ?c8 = "?c7(8 \<mapsto> [a, b])"
  let ?t5 = "58 # n1 # n2 # 58 # s1 # s2 # [a, b]"
  have 1: "first_match (directive_rx Dd)
      (d1 # d2 # 47 # m1 # m2 # 47 # y1 # y2 # 32 # hh @ ?t5, Map.empty) =
      Some (47 # m1 # m2 # 47 # y1 # y2 # 32 # hh @ ?t5, ?c1)"
    using first_Dd [OF d _ d31] day(1) pd by simp
  have 2: "first_match (directive_rx Dm) (m1 # m2 # 47 # y1 # y2 # 32 # hh @ ?t5, ?c1) =
      Some (47 # y1 # y2 # 32 # hh @ ?t5, ?c2)"
    using first_Dm [OF m] month pm by simp
  have 3: "first_match (directive_rx Dy) (y1 # y2 # 32 # hh @ ?t5, ?c2) =
      Some (32 # hh @ ?t5, ?c3)"
    by (rule first_Dy) (rule y)+
  have 4: "first_match (directive_rx Ws) (32 # hh @ ?t5, ?c3) = Some (hh @ ?t5, ?c3)"
    unfolding hh using first_Ws [OF x] by simp
  have 5: "first_match (directive_rx DI) (hh @ ?t5, ?c3) = Some (?t5, ?c5)"
    by (rule first_DI) (rule h)
  have 6: "first_match (directive_rx DM) (n1 # n2 # 58 # s1 # s2 # [a, b], ?c5) =
      Some (58 # s1 # s2 # [a, b], ?c6)"
    using first_DM [OF n] minute pn by simp
  have 7: "first_match (directive_rx DS) (s1 # s2 # [a, b], ?c6) = Some ([a, b], ?c7)"
    using first_DS [OF s] second ps by simp
  have 8: "first_match (directive_rx Dp) ([a, b], ?c7) = Some ([], ?c8)"
    by (rule first_Dp) (rule mer)+
  have f: "format_regex fmt_12h =
      Cat (directive_rx Dd) (Cat (lit 47) (Cat (directive_rx Dm) (Cat (lit 47)
     (Cat (directive_rx Dy) (Cat (directive_rx Ws) (Cat (directive_rx DI) (Cat (lit 58)
     (Cat (directive_rx DM) (Cat (lit 58) (Cat (directive_rx DS) (Cat (directive_rx Dp) Eps)))))))))))"
    by (simp add: fmt_12h_def)
  have "first_match (format_regex fmt_12h)
      (d1 # d2 # 47 # m1 # m2 # 47 # y1 # y2 # 32 # hh @ ?t5, Map.empty) = Some ([], ?c8)"
    unfolding f
    by (rule first_Cat [OF 1 first_Cat [OF first_lit first_Cat [OF 2 first_Cat [OF first_lit
        first_Cat [OF 3 first_Cat [OF 4 first_Cat [OF 5 first_Cat [OF first_lit
        first_Cat [OF 6 first_Cat [OF first_lit first_Cat [OF 7 first_Cat [OF 8
        first_Eps]]]]]]]]]]]])
  moreover have "fields_of ?c8 =
     Some \<lparr>ts_year = century (py_int [y1, y2]), ts_month = py_int [m1, m2],
           ts_day = py_int [d1, d2], ts_hour = hour_12 (py_int hh) (map sre_lower [a, b]),
           ts_minute = py_int [n1, n2], ts_second = py_int [s1, s2]\<rparr>"
    using day(2) second by (simp add: fields_of_def group_def del: map_upds_twist)
  ultimately show ?thesis
    by (simp add: strptime_def)
qed

lemma first_digits2:
  "is_digit a \<Longrightarrow> is_digit b \<Longrightarrow> first_match digits2 (a # b # s, c) = Some (s, c)"
  by (simp add: digits2_def first_match_def rep_rests_def)

lemma first_date_group:
  assumes "is_digit d1" "is_digit d2" "is_digit m1" "is_digit m2" "is_digit y1" "is_digit y2"
  shows "first_match (Grp 1 (Cat digits2 (Cat (lit 47) (Cat digits2 (Cat (lit 47) digits2)))))
      (d1 # d2 # 47 # m1 # m2 # 47 # y1 # y2 # s, c) =
     Some (s, c(1 \<mapsto> [d1, d2, 47, m1, m2, 47, y1, y2]))"
proof -
  have "first_match (Cat digits2 (Cat (lit 47) (Cat digits2 (Cat (lit 47) digits2))))
      (d1 # d2 # 47 # m1 # m2 # 47 # y1 # y2 # s, c) = Some (s, c)"
    by (rule first_Cat [OF first_digits2 first_Cat [OF first_lit first_Cat [OF first_digits2
        first_Cat [OF first_lit first_digits2]]]]) (rule assms)+
  from first_Grp [OF this, of 1] show ?thesis by simp
qed

lemma first_spaces:
  "list_all is_space sp \<Longrightarrow> \<not> is_space x \<Longrightarrow>
   first_match (Rep is_space 0 None) (sp @ x # s, c) = Some (x # s, c)"
  by (simp add: first_Rep_star dropWhile_append2 list_all_iff)

lemma not_digit_58: "\<not> is_digit 58"
  by (simp add: is_digit_ascii)

lemma first_hour:
  assumes "list_all is_digit hh" and "length hh = 1 \<or> length hh = 2"
  shows "first_match (Rep is_digit 1 (Some 2)) (hh @ 58 # s, c) = Some (58 # s, c)"
proof -
  have tw: "takeWhile is_digit (hh @ 58 # s) = hh"
    using assms(1) by (simp add: takeWhile_append2 list_all_iff not_digit_58)
  show ?thesis
    using first_Rep [where lo = 1 and hi = "Some 2" and p = is_digit and s = "hh @ 58 # s"
        and c = c] assms(2)
    unfolding tw by auto
qed

lemma first_time_group:
  assumes "list_all is_digit hh" and "length hh = 1 \<or> length hh = 2"
    and "is_digit n1" "is_digit n2" "is_digit s1" "is_digit s2"
  shows "first_match (Grp 2 (Cat (Rep is_digit 1 (Some 2))
                (Cat (lit 58) (Cat digits2 (Cat (lit 58) digits2)))))
      (hh @ 58 # n1 # n2 # 58 # s1 # s2 # s, c) =
     Some (s, c(2 \<mapsto> hh @ [58, n1, n2, 58, s1, s2]))"
proof -
  have "first_match (Cat (Rep is_digit 1 (Some 2))
                (Cat (lit 58) (Cat digits2 (Cat (lit 58) digits2))))
      (hh @ 58 # n1 # n2 # 58 # s1 # s2 # s, c) = Some (s, c)"
    by (rule first_Cat [OF first_hour first_Cat [OF first_lit first_Cat [OF first_digits2
        first_Cat [OF first_lit first_digits2]]]]) (rule assms)+
  from first_Grp [OF this, of 2] show ?thesis by simp
qed

lemma meridiem_letters:
  assumes "ci 65 a \<or> ci 80 a" and "ci 77 b"
  shows "\<not> is_space a \<and> \<not> is_space b \<and> a \<noteq> 8239"
  using assms by (auto simp: ci_def sre_lower_def Let_def is_space_def split: if_splits)

lemma first_nnbsp_group:
  "a \<noteq> 8239 \<Longrightarrow> first_match (Grp 3 (Alt (lit 8239) Eps)) (a # s, c) = Some (a # s, c(3 \<mapsto> []))"
  by (simp add: first_match_def lit_def)

lemma first_meridiem_group:
  assumes "ci 65 a \<or> ci 80 a" and "ci 77 b"
  shows "first_match (Grp 4 (Alt (ci_word (u ''AM'')) (Alt (ci_word (u ''PM''))
                (Alt (ci_word (u ''am'')) (Alt (ci_word (u ''pm'')) Eps)))))
      (a # b # s, c) = Some (s, c(4 \<mapsto> [a, b]))"
  using assms
  by (auto simp: first_match_def u_def ci_def sre_lower_def Let_def)

lemma first_meridiem:
  assumes "list_all is_space sp2" "list_all is_space sp3"
    and "ci 65 a \<or> ci 80 a" and "ci 77 b"
  shows "first_match WA_meridiem (sp2 @ a # b # sp3 @ 93 # s, c) =
     Some (s, c(3 \<mapsto> [], 4 \<mapsto> [a, b]))"
proof -
  have l: "\<not> is_space a" "a \<noteq> 8239" using meridiem_letters [OF assms(3,4)] by simp_all
  have r: "\<not> is_space 93" by (simp add: is_space_def)
  show ?thesis
    unfolding WA_meridiem_def
    by (rule first_Cat [OF first_spaces [OF assms(1) l(1)]
        first_Cat [OF first_nnbsp_group [OF l(2)]
        first_Cat [OF first_meridiem_group [OF assms(3,4)]
        first_Cat [OF first_spaces [OF assms(2) r] first_lit]]]])
qed

lemma first_bracket:
  assumes "is_digit d1" "is_digit d2" "is_digit m1" "is_digit m2" "is_digit y1" "is_digit y2"
    and "list_all is_digit hh" and "length hh = 1 \<or> length hh = 2"
    and "is_digit n1" "is_digit n2" "is_digit s1" "is_digit s2"
    and "list_all is_space sp1" "list_all is_space sp2" "list_all is_space sp3"
    and "ci 65 a \<or> ci 80 a" and "ci 77 b"
  shows "first_match WA_bracket
      (91 # d1 # d2 # 47 # m1 # m2 # 47 # y1 # y2 # 44 # sp1 @ hh @ 58 # n1 # n2 # 58 # s1 # s2 #
       sp2 @ a # b # sp3 @ 93 # s, Map.empty) =
     Some (s, [1 \<mapsto> [d1, d2, 47, m1, m2, 47, y1, y2], 2 \<mapsto> hh @ [58, n1, n2, 58, s1, s2],
               3 \<mapsto> [], 4 \<mapsto> [a, b]])"
proof -
  obtain x hs where hh: "hh = x # hs" using assms(8) by (cases hh) auto
  have x: "\<not> is_space x" using assms(7) hh by (simp add: digit_not_space)
  let ?r = "n1 # n2 # 58 # s1 # s2 # sp2 @ a # b # sp3 @ 93 # s"
  have sp: "first_match (Rep is_space 0 None) (sp1 @ hh @ 58 # ?r, [1 \<mapsto> [d1, d2, 47, m1, m2, 47, y1, y2]]) =
      Some (hh @ 58 # ?r, [1 \<mapsto> [d1, d2, 47, m1, m2, 47, y1, y2]])"
    unfolding hh using first_spaces [OF assms(13) x] by simp
  have dt: "first_match WA_date_time
      (91 # d1 # d2 # 47 # m1 # m2 # 47 # y1 # y2 # 44 # sp1 @ hh @ 58 # ?r, Map.empty) =
     Some (sp2 @ a # b # sp3 @ 93 # s,
           [1 \<mapsto> [d1, d2, 47, m1, m2, 47, y1, y2], 2 \<mapsto> hh @ [58, n1, n2, 58, s1, s2]])"
    unfolding WA_date_time_def
    by (rule first_Cat [OF first_lit first_Cat [OF first_date_group [OF assms(1-6)]
        first_Cat [OF first_lit first_Cat [OF sp
        first_time_group [OF assms(7-12)]]]]])
  show ?thesis
    unfolding WA_bracket_def
    by (rule first_Cat [OF dt first_meridiem [OF assms(14-17)]])
qed

lemma first_sender_body:
  assumes "list_all is_space sp4" and "who \<noteq> []" and "\<not> is_space (hd who)"
    and "58 \<notin> set who"
  shows "first_match WA_sender_body (sp4 @ who @ 58 # rest, g) =
     Some (dropWhile (\<lambda>c. c \<noteq> 10) (dropWhile is_space rest),
           g(5 \<mapsto> who, 6 \<mapsto> takeWhile (\<lambda>c. c \<noteq> 10) (dropWhile is_space rest)))"
proof -
  obtain x xs where sx: "who = x # xs" using assms(2) by (cases who) auto
  have x: "\<not> is_space x" using assms(3) sx by simp
  have sp: "first_match (Rep is_space 0 None) (sp4 @ who @ 58 # rest, g) =
      Some (who @ 58 # rest, g)"
    unfolding sx using first_spaces [OF assms(1) x] by simp
  have tw: "takeWhile (\<lambda>c. c \<noteq> 58) (who @ 58 # rest) = who"
    using assms(4) by (induction who) auto
  have "first_match (Rep (\<lambda>c. c \<noteq> 58) 1 None) (who @ 58 # rest, g) = Some (58 # rest, g)"
    using first_Rep [where lo = 1 and hi = None and p = "\<lambda>c. c \<noteq> 58"
        and s = "who @ 58 # rest" and c = g] assms(2)
    unfolding tw by (cases who) auto
  from first_Grp [OF this, of 5]
  have g5: "first_match (Grp 5 (Rep (\<lambda>c. c \<noteq> 58) 1 None)) (who @ 58 # rest, g) =
      Some (58 # rest, g(5 \<mapsto> who))"
    by simp
  have g6: "first_match (Grp 6 (Rep (\<lambda>c. c \<noteq> 10) 0 None)) (dropWhile is_space rest, g(5 \<mapsto> who))
      = Some (dropWhile (\<lambda>c. c \<noteq> 10) (dropWhile is_space rest),
              g(5 \<mapsto> who, 6 \<mapsto> takeWhile (\<lambda>c. c \<noteq> 10) (dropWhile is_space rest)))"
    using first_Grp [OF first_Rep_star [where p = "\<lambda>c. c \<noteq> 10"
          and s = "dropWhile is_space rest" and c = "g(5 \<mapsto> who)"], of 6]
    by (simp add: take_consumed)
  show ?thesis
    unfolding WA_sender_body_def
    by (rule first_Cat [OF sp first_Cat [OF g5 first_Cat [OF first_lit
        first_Cat [OF first_Rep_star g6]]]])
qed

end
